theory Spec2Isabelle
  imports Main "HOL-Library.AList"
begin

section \<open>BOAMP data extractor: the extraction and filter pipeline of main.py\<close>

text \<open>
  Python strings are modelled as \<^typ>\<open>string\<close>, one \<^typ>\<open>char\<close> per code point, which
  covers the code points U+0000 to U+00FF. Python integers are \<^typ>\<open>int\<close>; floating point
  values are not modelled.
\<close>

subsection \<open>String operations of the Python library used by the source\<close>

text \<open>\<^verbatim>\<open>str.isspace\<close> on one code point below U+0100: the characters \<^verbatim>\<open>str.strip()\<close> removes.\<close>

definition is_space :: "char \<Rightarrow> bool" where
  "is_space c =
     (let n = (of_char c :: nat)
      in (9 \<le> n \<and> n \<le> 13) \<or> (28 \<le> n \<and> n \<le> 32) \<or> n = 133 \<or> n = 160)"

text \<open>\<^verbatim>\<open>s.strip(chars)\<close>: drop the leading and the trailing characters that satisfy \<open>p\<close>.\<close>

definition py_strip :: "(char \<Rightarrow> bool) \<Rightarrow> string \<Rightarrow> string" where
  "py_strip p s = rev (dropWhile p (rev (dropWhile p s)))"

definition is_bracket :: "char \<Rightarrow> bool" where
  "is_bracket c = (c = CHR ''['' \<or> c = CHR '']'')"

text \<open>\<^verbatim>\<open>s.replace(c, '')\<close> for a one-character \<open>c\<close>: every occurrence is removed.\<close>

definition py_remove :: "char \<Rightarrow> string \<Rightarrow> string" where
  "py_remove c s = filter (\<lambda>x. x \<noteq> c) s"

text \<open>\<^verbatim>\<open>s.split(c)\<close> for a one-character separator: never the empty list.\<close>

fun py_split :: "char \<Rightarrow> string \<Rightarrow> string list" where
  "py_split c [] = [[]]"
| "py_split c (x # xs) =
     (if x = c then [] # py_split c xs
      else (x # hd (py_split c xs)) # tl (py_split c xs))"

text \<open>\<^verbatim>\<open>sep.join(parts)\<close>.\<close>

fun py_join :: "string \<Rightarrow> string list \<Rightarrow> string" where
  "py_join sep [] = []"
| "py_join sep [p] = p"
| "py_join sep (p # q # ps) = p @ sep @ py_join sep (q # ps)"

text \<open>Python's \<open><\<close> on strings: lexicographic on code points.\<close>

fun str_lt :: "string \<Rightarrow> string \<Rightarrow> bool" where
  "str_lt [] [] = False"
| "str_lt [] (y # ys) = True"
| "str_lt (x # xs) [] = False"
| "str_lt (x # xs) (y # ys) =
     (if (of_char x :: nat) < of_char y then True
      else if x = y then str_lt xs ys else False)"

text \<open>\<^verbatim>\<open>str(n)\<close> for a natural number and for an integer: decimal digits.\<close>

definition digit_char :: "nat \<Rightarrow> char" where
  "digit_char d = char_of (48 + d)"

fun str_nat :: "nat \<Rightarrow> string" where
  "str_nat n = (if n < 10 then [digit_char n] else str_nat (n div 10) @ [digit_char (n mod 10)])"

definition str_int :: "int \<Rightarrow> string" where
  "str_int i = (if i < 0 then CHR ''-'' # str_nat (nat (- i)) else str_nat (nat i))"

declare str_nat.simps [simp del]

subsection \<open>Values, records and errors\<close>

text \<open>
  A value of a record as \<^verbatim>\<open>response.json()\<close> delivers it: null, a boolean, an integer, a
  string, a list or an object. A record is a Python dict, kept as an association list in
  insertion order and read with \<^const>\<open>map_of\<close>.
\<close>

datatype pyval =
    PNone
  | PBool bool
  | PInt int
  | PStr string
  | PList "pyval list"
  | PDict "(string \<times> pyval) list"

type_synonym record_t = "(string \<times> pyval) list"

text \<open>The exceptions the modelled code can raise, each with the text of \<^verbatim>\<open>str(e)\<close>.\<close>

datatype py_error = TypeError string | ValueError string | KeyError string

definition squote :: string where
  "squote = [CHR 0x27]"

fun str_error :: "py_error \<Rightarrow> string" where
  "str_error (TypeError m) = m"
| "str_error (ValueError m) = m"
| "str_error (KeyError k) = squote @ k @ squote"

fun type_name :: "pyval \<Rightarrow> string" where
  "type_name PNone = ''NoneType''"
| "type_name (PBool b) = ''bool''"
| "type_name (PInt i) = ''int''"
| "type_name (PStr s) = ''str''"
| "type_name (PList xs) = ''list''"
| "type_name (PDict kvs) = ''dict''"

subsection \<open>The fetcher: \<^verbatim>\<open>get_all_records_for_date\<close>\<close>

text \<open>
  One page request \<^verbatim>\<open>requests.get(url, params)\<close> with \<^verbatim>\<open>raise_for_status()\<close> and
  \<^verbatim>\<open>json()\<close> either raises a \<^verbatim>\<open>RequestException\<close> or delivers the list under the key
  \<^verbatim>\<open>results\<close> (the empty list when the key is missing). The remote catalogue is a
  function from the requested offset to that outcome; the loop asks for every offset at
  most once.
\<close>

datatype response = RequestException | Results "record_t list"

type_synonym remote = "nat \<Rightarrow> response"

text \<open>\<^verbatim>\<open>[record for record in records if record.get('dateparution') == target_date]\<close>\<close>

definition target_records :: "string \<Rightarrow> record_t list \<Rightarrow> record_t list" where
  "target_records target_date records =
     filter (\<lambda>record. map_of record ''dateparution'' = Some (PStr target_date)) records"

text \<open>
  \<^verbatim>\<open>records[-1].get('dateparution', '') < target_date\<close>: a string is compared, a missing key
  counts as the empty string, and any other value raises \<^verbatim>\<open>TypeError\<close>.
\<close>

definition date_before :: "record_t \<Rightarrow> string \<Rightarrow> py_error + bool" where
  "date_before record target_date =
     (case map_of record ''dateparution'' of
        None \<Rightarrow> Inr (str_lt [] target_date)
      | Some (PStr d) \<Rightarrow> Inr (str_lt d target_date)
      | Some v \<Rightarrow> Inl (TypeError
          (squote @ ''<'' @ squote @ '' not supported between instances of '' @
           squote @ type_name v @ squote @ '' and '' @ squote @ ''str'' @ squote)))"

text \<open>
  The \<^verbatim>\<open>while\<close> loop. Its state is the accumulated list and the offset; the list of the
  offsets requested so far is carried along as a log of the requests made. A
  \<^verbatim>\<open>RequestException\<close> is caught and leaves the loop; the \<^verbatim>\<open>TypeError\<close> of the date
  comparison is not caught here.
\<close>

function fetch_loop ::
  "remote \<Rightarrow> string \<Rightarrow> int \<Rightarrow> record_t list \<Rightarrow> nat \<Rightarrow> nat list
     \<Rightarrow> (py_error + record_t list) \<times> nat list" where
  "fetch_loop remote target_date max_records all_records offset log =
     (if int (length all_records) < max_records then
        (case remote offset of
           RequestException \<Rightarrow> (Inr all_records, log @ [offset])
         | Results records \<Rightarrow>
             if records = [] then (Inr all_records, log @ [offset])
             else
               (case date_before (last records) target_date of
                  Inl e \<Rightarrow> (Inl e, log @ [offset])
                | Inr True \<Rightarrow>
                    (Inr (all_records @ target_records target_date records), log @ [offset])
                | Inr False \<Rightarrow>
                    if offset + 100 > 10000 then
                      (Inr (all_records @ target_records target_date records), log @ [offset])
                    else
                      fetch_loop remote target_date max_records
                        (all_records @ target_records target_date records)
                        (offset + 100) (log @ [offset])))
      else (Inr all_records, log))"
  by pat_completeness auto
termination
  by (relation "measure (\<lambda>(remote, target_date, max_records, all_records, offset, log).
                  10001 - offset)") auto

declare fetch_loop.simps [simp del]

definition get_all_records_for_date ::
  "remote \<Rightarrow> string \<Rightarrow> int \<Rightarrow> (py_error + record_t list) \<times> nat list" where
  "get_all_records_for_date remote target_date max_records =
     fetch_loop remote target_date max_records [] 0 []"

subsection \<open>The normaliser: \<^verbatim>\<open>create_excel_simple\<close>\<close>

text \<open>
  \<^verbatim>\<open>json.dumps(value, ensure_ascii=False)\<close> with the default separators. Inside a string the
  backslash, the double quote and the control characters below U+0020 are escaped.
\<close>

definition hex_digit :: "nat \<Rightarrow> char" where
  "hex_digit d = (if d < 10 then char_of (48 + d) else char_of (87 + d))"

definition json_escape_char :: "char \<Rightarrow> string" where
  "json_escape_char c =
     (if c = CHR 0x5C then [CHR 0x5C, CHR 0x5C]
      else if c = CHR 0x22 then [CHR 0x5C, CHR 0x22]
      else if c = CHR 0x08 then [CHR 0x5C, CHR ''b'']
      else if c = CHR 0x0C then [CHR 0x5C, CHR ''f'']
      else if c = CHR 0x0A then [CHR 0x5C, CHR ''n'']
      else if c = CHR 0x0D then [CHR 0x5C, CHR ''r'']
      else if c = CHR 0x09 then [CHR 0x5C, CHR ''t'']
      else if (of_char c :: nat) < 32 then
        [CHR 0x5C, CHR ''u'', CHR ''0'', CHR ''0'',
         hex_digit (of_char c div 16), hex_digit (of_char c mod 16)]
      else [c])"

definition json_string :: "string \<Rightarrow> string" where
  "json_string s = [CHR 0x22] @ concat (map json_escape_char s) @ [CHR 0x22]"

fun json_dumps :: "pyval \<Rightarrow> string" where
  "json_dumps PNone = ''null''"
| "json_dumps (PBool b) = (if b then ''true'' else ''false'')"
| "json_dumps (PInt i) = str_int i"
| "json_dumps (PStr s) = json_string s"
| "json_dumps (PList xs) = ''['' @ py_join '', '' (map json_dumps xs) @ '']''"
| "json_dumps (PDict kvs) =
     ''{'' @ py_join '', '' (map (\<lambda>(k, v). json_string k @ '': '' @ json_dumps v) kvs) @ ''}''"

text \<open>
  A cell of a DataFrame: what \<^verbatim>\<open>create_excel_simple\<close> leaves in a row (a string, an
  integer, a boolean), and the two further shapes \<^verbatim>\<open>filter_by_departments\<close> tests for
  (\<^verbatim>\<open>None\<close> and a list of tokens). A row is an association list from column name to cell;
  a column without an entry in a row holds NaN there. Every cell keeps the Python object
  put into it: the conversions pandas applies to a column as a whole (an integer column
  with a missing entry is stored as floating point) are not modelled.
\<close>

datatype cell = CNone | CStr string | CInt int | CBool bool | CList "string list"

type_synonym row = "(string \<times> cell) list"

record dataframe =
  columns :: "string list"
  rows :: "row list"

fun clean_value :: "pyval \<Rightarrow> cell" where
  "clean_value (PList xs) = CStr (json_dumps (PList xs))"
| "clean_value (PDict kvs) = CStr (json_dumps (PDict kvs))"
| "clean_value PNone = CStr []"
| "clean_value (PStr s) = CStr s"
| "clean_value (PInt i) = CInt i"
| "clean_value (PBool b) = CBool b"

definition clean_record :: "record_t \<Rightarrow> row" where
  "clean_record record = map (\<lambda>(key, value). (key, clean_value value)) record"

text \<open>
  \<^verbatim>\<open>pd.DataFrame(cleaned_records)\<close>: the columns are the keys in order of first
  appearance, and every row keeps the cells of its record. The floating point storage
  pandas gives an integer column with a missing entry is outside the model, as floating
  point values are.
\<close>

definition first_seen :: "'a list \<Rightarrow> 'a list" where
  "first_seen xs = rev (remdups (rev xs))"

definition create_excel_simple :: "record_t list \<Rightarrow> string \<Rightarrow> dataframe" where
  "create_excel_simple records target_date =
     \<lparr> columns = first_seen (concat (map (map fst) (map clean_record records))),
       rows = map clean_record records \<rparr>"

subsection \<open>The matcher: \<^verbatim>\<open>filter_by_departments\<close>\<close>

text \<open>
  The guard \<^verbatim>\<open>pd.isna(code_departement) or code_departement == ""\<close>. On a list
  \<^verbatim>\<open>pd.isna\<close> answers with an array of booleans, one per element, and the truth value
  of an array is defined only when it has exactly one element: every other length raises
  \<^verbatim>\<open>ValueError\<close> (for the empty array since NumPy 2.2; earlier versions warn and answer
  False). The guard stands before the \<^verbatim>\<open>try\<close> block, so the error leaves the function.
\<close>

definition na_or_empty :: "cell \<Rightarrow> py_error + bool" where
  "na_or_empty code_departement =
     (case code_departement of
        CNone \<Rightarrow> Inr True
      | CStr s \<Rightarrow> Inr (s = [])
      | CInt i \<Rightarrow> Inr False
      | CBool b \<Rightarrow> Inr False
      | CList xs \<Rightarrow>
          if length xs = 1 then Inr False
          else if xs = [] then Inl (ValueError
            ''The truth value of an empty array is ambiguous. Use `array.size > 0` to check that an array is not empty.'')
          else Inl (ValueError
            ''The truth value of an array with more than one element is ambiguous. Use a.any() or a.all()''))"

text \<open>
  The decoding of the field into \<^verbatim>\<open>dep_list\<close>, lines 136 to 145:
  \<^verbatim>\<open>cleaned_str = code_departement.strip('[]').replace('"', '').replace("'", "")\<close> and
  \<^verbatim>\<open>[dep.strip() for dep in cleaned_str.split(',') if dep.strip()]\<close> for a string, the list
  itself for a list, \<^verbatim>\<open>[str(code_departement).strip()]\<close> for any other value. None of these
  operations raises, so the \<^verbatim>\<open>except\<close> branch of the source is never taken.
\<close>

definition clean_str :: "string \<Rightarrow> string" where
  "clean_str s = py_remove (CHR 0x27) (py_remove (CHR 0x22) (py_strip is_bracket s))"

definition split_tokens :: "string \<Rightarrow> string list" where
  "split_tokens cleaned_str =
     map (py_strip is_space)
       (filter (\<lambda>dep. py_strip is_space dep \<noteq> []) (py_split (CHR '','') cleaned_str))"

fun decode_departments :: "cell \<Rightarrow> string list" where
  "decode_departments (CStr s) = split_tokens (clean_str s)"
| "decode_departments (CList xs) = xs"
| "decode_departments (CInt i) = [py_strip is_space (str_int i)]"
| "decode_departments (CBool b) = [py_strip is_space (if b then ''True'' else ''False'')]"
| "decode_departments CNone = [py_strip is_space ''None'']"

text \<open>
  The scan \<^verbatim>\<open>for dep in dep_list: if dep in target_departments: ... break\<close>: the value
  left in \<^verbatim>\<open>departement_trouve\<close>.
\<close>

fun scan_departments :: "string list \<Rightarrow> string list \<Rightarrow> string option" where
  "scan_departments [] target_departments = None"
| "scan_departments (dep # dep_list) target_departments =
     (if dep \<in> set target_departments then Some dep
      else scan_departments dep_list target_departments)"

text \<open>
  One pass of the loop body for a row: \<^verbatim>\<open>row.get('code_departement', '')\<close>, the guard, the
  decoding and the scan. A row without the column is skipped like an empty string.
\<close>

definition row_departement :: "row \<Rightarrow> string list \<Rightarrow> py_error + string option" where
  "row_departement r target_departments =
     (case map_of r ''code_departement'' of
        None \<Rightarrow> Inr None
      | Some code_departement \<Rightarrow>
          (case na_or_empty code_departement of
             Inl e \<Rightarrow> Inl e
           | Inr True \<Rightarrow> Inr None
           | Inr False \<Rightarrow>
               Inr (scan_departments (decode_departments code_departement) target_departments)))"

text \<open>
  The loop over \<^verbatim>\<open>df.iterrows()\<close>, with the running index and the two accumulators
  \<^verbatim>\<open>indices_a_conserver\<close> and \<^verbatim>\<open>departements_trouves\<close>.
\<close>

fun filter_loop ::
  "string list \<Rightarrow> nat \<Rightarrow> row list \<Rightarrow> nat list \<Rightarrow> string option list
     \<Rightarrow> py_error + (nat list \<times> string option list)" where
  "filter_loop target_departments index [] indices_a_conserver departements_trouves =
     Inr (indices_a_conserver, departements_trouves)"
| "filter_loop target_departments index (r # rest) indices_a_conserver departements_trouves =
     (case row_departement r target_departments of
        Inl e \<Rightarrow> Inl e
      | Inr None \<Rightarrow>
          filter_loop target_departments (index + 1) rest
            indices_a_conserver (departements_trouves @ [None])
      | Inr (Some dep) \<Rightarrow>
          filter_loop target_departments (index + 1) rest
            (indices_a_conserver @ [index]) (departements_trouves @ [Some dep]))"

text \<open>
  \<^verbatim>\<open>df_filtre['code_departement_trouve'] = [...]\<close> on the selected rows: the cell of each row
  is overwritten or appended, and the column is appended unless it exists.
\<close>

definition trouve_cell :: "string option \<Rightarrow> cell" where
  "trouve_cell t = (case t of None \<Rightarrow> CNone | Some dep \<Rightarrow> CStr dep)"

definition set_trouve :: "row \<Rightarrow> string option \<Rightarrow> row" where
  "set_trouve r t = AList.update ''code_departement_trouve'' (trouve_cell t) r"

definition filter_by_departments :: "dataframe \<Rightarrow> string list \<Rightarrow> py_error + dataframe" where
  "filter_by_departments df target_departments =
     (case filter_loop target_departments 0 (rows df) [] [] of
        Inl e \<Rightarrow> Inl e
      | Inr (indices_a_conserver, departements_trouves) \<Rightarrow>
          if indices_a_conserver \<noteq> [] then
            Inr \<lparr> columns =
                    (if ''code_departement_trouve'' \<in> set (columns df) then columns df
                     else columns df @ [''code_departement_trouve'']),
                  rows = map (\<lambda>i. set_trouve (rows df ! i) (departements_trouves ! i))
                           indices_a_conserver \<rparr>
          else
            Inr \<lparr> columns = columns df @ [''code_departement_trouve''], rows = [] \<rparr>)"

subsection \<open>The job ledger and the orchestrator: \<^verbatim>\<open>process_extraction\<close>\<close>

text \<open>
  An entry of the dict \<^verbatim>\<open>jobs\<close>. The keys written at submission are always present; the
  keys \<^verbatim>\<open>full_df\<close>, \<^verbatim>\<open>filtered_df\<close> and \<^verbatim>\<open>department_distribution\<close> exist only once
  the orchestrator has stored them, which \<^const>\<open>None\<close> and \<^const>\<open>Some\<close> record.
\<close>

record job =
  status :: string
  message :: string
  target_date :: string
  departments :: "string list"
  total_records :: nat
  filtered_records :: nat
  full_df :: "dataframe option"
  filtered_df :: "dataframe option"
  department_distribution :: "(cell \<rightharpoonup> nat) option"

type_synonym jobs = "string \<rightharpoonup> job"

text \<open>
  \<^verbatim>\<open>df_filtered['code_departement_trouve'].value_counts().to_dict()\<close>: the number of rows per
  value of the column, NaN and \<^verbatim>\<open>None\<close> left out. The order of the keys is not kept. A
  list is not hashable and raises \<^verbatim>\<open>TypeError\<close>.
\<close>

definition column_values :: "dataframe \<Rightarrow> string \<Rightarrow> cell option list" where
  "column_values df name = map (\<lambda>r. map_of r name) (rows df)"

fun is_list_cell :: "cell option \<Rightarrow> bool" where
  "is_list_cell (Some (CList xs)) = True"
| "is_list_cell v = False"

definition value_counts :: "cell option list \<Rightarrow> py_error + (cell \<rightharpoonup> nat)" where
  "value_counts vals =
     (if list_ex is_list_cell vals then
        Inl (TypeError (''unhashable type: '' @ squote @ ''list'' @ squote))
      else
        Inr (\<lambda>k. if k \<noteq> CNone \<and> Some k \<in> set vals then Some (count_list vals (Some k))
                  else None))"

text \<open>The handler \<^verbatim>\<open>except Exception as e\<close> of \<^verbatim>\<open>process_extraction\<close>.\<close>

definition on_error :: "job \<Rightarrow> py_error \<Rightarrow> job" where
  "on_error j e =
     j\<lparr> status := ''error'', message := ''Error during processing: '' @ str_error e \<rparr>"

text \<open>
  The body of \<^verbatim>\<open>process_extraction\<close> on the entry \<^verbatim>\<open>jobs[job_id]\<close>, which is the only
  entry it writes. Each stage that raises hands the entry, as written so far, to the handler.
\<close>

definition run_extraction :: "remote \<Rightarrow> job \<Rightarrow> string \<Rightarrow> int \<Rightarrow> string list \<Rightarrow> job" where
  "run_extraction remote j0 target_date' max_records departments' =
     (let j1 = j0\<lparr> status := ''processing'', message := ''Fetching BOAMP records...'' \<rparr>
      in case fst (get_all_records_for_date remote target_date' max_records) of
           Inl e \<Rightarrow> on_error j1 e
         | Inr all_records \<Rightarrow>
             if all_records = [] then
               j1\<lparr> status := ''completed'',
                   message := ''No records found for date '' @ target_date',
                   total_records := 0,
                   filtered_records := 0 \<rparr>
             else
               (let j2 = j1\<lparr> total_records := length all_records,
                               message := ''Found '' @ str_nat (length all_records) @
                                          '' records. Processing...'' \<rparr>;
                    df = create_excel_simple all_records target_date'
                in case filter_by_departments df departments' of
                     Inl e \<Rightarrow> on_error j2 e
                   | Inr df_filtered \<Rightarrow>
                       (let j3 = j2\<lparr> filtered_records := length (rows df_filtered),
                                       message := ''Processing complete. '' @
                                                  str_nat (length (rows df_filtered)) @
                                                  '' records after filtering.'',
                                       full_df := Some df,
                                       filtered_df := Some df_filtered \<rparr>
                        in if length (rows df_filtered) > 0 \<and>
                              ''code_departement_trouve'' \<in> set (columns df_filtered)
                           then
                             (case value_counts
                                     (column_values df_filtered ''code_departement_trouve'') of
                                Inl e \<Rightarrow> on_error j3 e
                              | Inr dept_counts \<Rightarrow>
                                  j3\<lparr> department_distribution := Some dept_counts,
                                      status := ''completed'' \<rparr>)
                           else
                             j3\<lparr> department_distribution := Some Map.empty,
                                 status := ''completed'' \<rparr>)))"

text \<open>
  \<^verbatim>\<open>process_extraction\<close> on the ledger. For an identifier without an entry the first
  statement raises \<^verbatim>\<open>KeyError\<close>, and so does the handler: that error leaves the function.
\<close>

definition process_extraction ::
  "remote \<Rightarrow> jobs \<Rightarrow> string \<Rightarrow> string \<Rightarrow> int \<Rightarrow> string list \<Rightarrow> py_error + jobs" where
  "process_extraction remote jobs job_id target_date' max_records departments' =
     (case jobs job_id of
        None \<Rightarrow> Inl (KeyError job_id)
      | Some j0 \<Rightarrow>
          Inr (jobs(job_id \<mapsto> run_extraction remote j0 target_date' max_records departments')))"

subsection \<open>The endpoints\<close>

text \<open>\<^verbatim>\<open>extract_data\<close>: the entry written at submission, under the identifier \<^verbatim>\<open>uuid4()\<close> gave.\<close>

record extraction_request =
  req_target_date :: string
  req_max_records :: int
  req_departments :: "string list"

definition extract_data :: "jobs \<Rightarrow> string \<Rightarrow> extraction_request \<Rightarrow> jobs" where
  "extract_data jobs job_id request =
     jobs(job_id \<mapsto>
       \<lparr> status = ''started'',
         message = ''Job created, starting processing...'',
         target_date = req_target_date request,
         departments = req_departments request,
         total_records = 0,
         filtered_records = 0,
         full_df = None,
         filtered_df = None,
         department_distribution = None \<rparr>)"

text \<open>The background task of a submission, run after \<^verbatim>\<open>extract_data\<close> has answered.\<close>

definition submit_and_run :: "remote \<Rightarrow> jobs \<Rightarrow> string \<Rightarrow> extraction_request \<Rightarrow> py_error + jobs" where
  "submit_and_run remote jobs job_id request =
     process_extraction remote (extract_data jobs job_id request) job_id
       (req_target_date request) (req_max_records request) (req_departments request)"

datatype http_error = HTTPException nat string

record job_status =
  js_job_id :: string
  js_status :: string
  js_message :: string
  js_total_records :: nat
  js_filtered_records :: nat
  js_department_distribution :: "cell \<rightharpoonup> nat"

definition get_job_status :: "jobs \<Rightarrow> string \<Rightarrow> http_error + job_status" where
  "get_job_status jobs job_id =
     (case jobs job_id of
        None \<Rightarrow> Inl (HTTPException 404 ''Job not found'')
      | Some j \<Rightarrow>
          Inr \<lparr> js_job_id = job_id,
                js_status = status j,
                js_message = message j,
                js_total_records = total_records j,
                js_filtered_records = filtered_records j,
                js_department_distribution =
                  (case department_distribution j of None \<Rightarrow> Map.empty | Some d \<Rightarrow> d) \<rparr>)"

text \<open>
  The download endpoints. The spreadsheet encoder is outside the program: the answer is
  the file name, the sheet name and the dataset handed to \<^verbatim>\<open>to_excel\<close>, whose sheet is
  the header row of the columns followed by one line per row. The time stamp of
  \<^verbatim>\<open>datetime.now()\<close> is an argument.
\<close>

record spreadsheet =
  filename :: string
  sheet_name :: string
  sheet :: dataframe

definition download_full_data :: "jobs \<Rightarrow> string \<Rightarrow> string \<Rightarrow> http_error + spreadsheet" where
  "download_full_data jobs job_id timestamp =
     (case jobs job_id of
        None \<Rightarrow> Inl (HTTPException 404 ''Data not available'')
      | Some j \<Rightarrow>
          if status j \<noteq> ''completed'' then Inl (HTTPException 404 ''Data not available'')
          else
            (case full_df j of
               None \<Rightarrow> Inl (HTTPException 404 ''Full data not available'')
             | Some df \<Rightarrow>
                 Inr \<lparr> filename = ''BOAMP_Full_Results_'' @ target_date j @ ''_'' @ timestamp @
                                   ''.xlsx'',
                       sheet_name = ''BOAMP_Data'',
                       sheet = df \<rparr>))"

definition download_filtered_data :: "jobs \<Rightarrow> string \<Rightarrow> string \<Rightarrow> http_error + spreadsheet" where
  "download_filtered_data jobs job_id timestamp =
     (case jobs job_id of
        None \<Rightarrow> Inl (HTTPException 404 ''Data not available'')
      | Some j \<Rightarrow>
          if status j \<noteq> ''completed'' then Inl (HTTPException 404 ''Data not available'')
          else
            (case filtered_df j of
               None \<Rightarrow> Inl (HTTPException 404 ''Filtered data not available'')
             | Some df \<Rightarrow>
                 Inr \<lparr> filename = ''BOAMP_Filtered_Results_'' @ target_date j @ ''_'' @
                                   timestamp @ ''.xlsx'',
                       sheet_name = ''BOAMP_Filtered'',
                       sheet = df \<rparr>))"

subsection \<open>Notions used to state the properties\<close>

text \<open>
  The three shapes in which a sequence of tokens stands in the department field of a
  fetched record: a list of strings, the bracketed string with every token in double
  quotes, and the bare string with the tokens separated by commas. The normaliser
  \<^const>\<open>clean_value\<close> turns each of them into the cell the matcher reads.
\<close>

definition list_field :: "string list \<Rightarrow> pyval" where
  "list_field toks = PList (map PStr toks)"

definition quoted_field :: "string list \<Rightarrow> pyval" where
  "quoted_field toks =
     PStr (''['' @ py_join '','' (map (\<lambda>t. [CHR 0x22] @ t @ [CHR 0x22]) toks) @ '']'')"

definition bare_field :: "string list \<Rightarrow> pyval" where
  "bare_field toks = PStr (py_join '','' toks)"

text \<open>
  Lines 129 to 145 for one cell: the tokens the scan is given. The guard raises, or skips
  the row, which then has no token to scan, or lets the decoding run.
\<close>

definition row_tokens :: "cell \<Rightarrow> py_error + string list" where
  "row_tokens code_departement =
     (case na_or_empty code_departement of
        Inl e \<Rightarrow> Inl e
      | Inr True \<Rightarrow> Inr []
      | Inr False \<Rightarrow> Inr (decode_departments code_departement))"

text \<open>
  A token that the string decoding leaves as it is: not empty, without comma and quote
  characters, without white space at either end.
\<close>

definition clean_token :: "string \<Rightarrow> bool" where
  "clean_token t =
     (t \<noteq> [] \<and> CHR '','' \<notin> set t \<and> CHR 0x22 \<notin> set t \<and> CHR 0x27 \<notin> set t
      \<and> \<not> is_space (hd t) \<and> \<not> is_space (last t))"

text \<open>
  What \<^verbatim>\<open>json.dumps\<close> writes between the quotes of a string, and a token that it
  writes there as it is: without backslash, double quote and control characters.
\<close>

definition json_escape :: "string \<Rightarrow> string" where
  "json_escape t = concat (map json_escape_char t)"

definition json_plain :: "string \<Rightarrow> bool" where
  "json_plain t =
     (CHR 0x5C \<notin> set t \<and> CHR 0x22 \<notin> set t \<and> list_all (\<lambda>c. 32 \<le> (of_char c :: nat)) t)"

text \<open>The code recorded for a row, and the positions of the rows that record one.\<close>

definition trouve_of :: "string list \<Rightarrow> row \<Rightarrow> string option" where
  "trouve_of target_departments r =
     (case row_departement r target_departments of Inl e \<Rightarrow> None | Inr t \<Rightarrow> t)"

definition kept_indices :: "string list \<Rightarrow> row list \<Rightarrow> nat list" where
  "kept_indices target_departments rs =
     filter (\<lambda>k. trouve_of target_departments (rs ! k) \<noteq> None) [0..<length rs]"

text \<open>
  What a page contributes to the result, whether the loop goes on after a page, and the
  course of the loop from a given state: the offsets it requests from there on increase,
  every page but the last one lets the loop go on, the result is the accumulated list
  followed by the contributions of the pages in order, an error comes from the date
  comparison on the last page, and every request is made below the bound.
\<close>

definition page_matches :: "remote \<Rightarrow> string \<Rightarrow> nat \<Rightarrow> record_t list" where
  "page_matches remote td offset =
     (case remote offset of
        RequestException \<Rightarrow> []
      | Results records \<Rightarrow> target_records td records)"

definition page_continues :: "remote \<Rightarrow> string \<Rightarrow> nat \<Rightarrow> bool" where
  "page_continues remote td offset =
     (case remote offset of
        RequestException \<Rightarrow> False
      | Results records \<Rightarrow>
          records \<noteq> [] \<and> date_before (last records) td = Inr False \<and> offset + 100 \<le> 10000)"

definition fetch_trace ::
  "remote \<Rightarrow> string \<Rightarrow> int \<Rightarrow> record_t list \<Rightarrow> nat
     \<Rightarrow> (py_error + record_t list) \<Rightarrow> nat list \<Rightarrow> bool" where
  "fetch_trace remote td mx acc offset res ext =
     ((\<forall>off\<in>set ext. offset \<le> off)
      \<and> sorted_wrt (<) ext
      \<and> (\<forall>off\<in>set (butlast ext). page_continues remote td off)
      \<and> (\<forall>r. res = Inr r \<longrightarrow> r = acc @ concat (map (page_matches remote td) ext))
      \<and> (\<forall>e. res = Inl e \<longrightarrow> ext \<noteq> [] \<and>
            (\<exists>records. remote (last ext) = Results records \<and> records \<noteq> []
               \<and> date_before (last records) td = Inl e))
      \<and> (\<forall>i<length ext.
            int (length (acc @ concat (map (page_matches remote td) (take i ext)))) < mx))"

subsection \<open>Concrete inputs\<close>

text \<open>A catalogue without any record, and a submission for the first of May 2024.\<close>

definition no_records_remote :: remote where
  "no_records_remote offset = Results []"

definition request_2024 :: extraction_request where
  "request_2024 =
     \<lparr> req_target_date = ''2024-05-01'', req_max_records = 5000, req_departments = [''75''] \<rparr>"

text \<open>A ledger with one completed job that holds a full dataset and no filtered one.\<close>

definition one_row_df :: dataframe where
  "one_row_df = \<lparr> columns = [''id''], rows = [[(''id'', CStr ''24-1'')]] \<rparr>"

definition half_stored_job :: job where
  "half_stored_job =
     \<lparr> status = ''completed'', message = ''Processing complete.'',
       target_date = ''2024-05-01'', departments = [''75''],
       total_records = 1, filtered_records = 0,
       full_df = Some one_row_df, filtered_df = None,
       department_distribution = None \<rparr>"

definition half_stored_ledger :: jobs where
  "half_stored_ledger = [''job-1'' \<mapsto> half_stored_job]"

text \<open>A token with a backslash in it.\<close>

definition backslash_token :: string where
  "backslash_token = ''7'' @ [CHR 0x5C] @ ''5''"

text \<open>A record whose department field is the list 92, 75, and its dataset.\<close>

definition record_92_75 :: record_t where
  "record_92_75 =
     [(''dateparution'', PStr ''2024-05-01''),
      (''code_departement'', PList [PStr ''92'', PStr ''75''])]"

definition df_92_75 :: dataframe where
  "df_92_75 = create_excel_simple [record_92_75] ''2024-05-01''"

text \<open>
  The scenario of three records for the date: one with the department field
  \<^verbatim>\<open>['75','92']\<close> as text, one with \<^verbatim>\<open>92\<close>, one with null.
\<close>

definition scenario_records :: "record_t list" where
  "scenario_records =
     [[(''dateparution'', PStr ''2024-05-01''),
       (''code_departement'',
        PStr (''['' @ squote @ ''75'' @ squote @ '','' @ squote @ ''92'' @ squote @ '']''))],
      [(''dateparution'', PStr ''2024-05-01''), (''code_departement'', PStr ''92'')],
      [(''dateparution'', PStr ''2024-05-01''), (''code_departement'', PNone)]]"

definition scenario_remote :: remote where
  "scenario_remote offset = (if offset = 0 then Results scenario_records else Results [])"

definition started_job :: job where
  "started_job =
     \<lparr> status = ''started'', message = ''Job created, starting processing...'',
       target_date = ''2024-05-01'', departments = [''75''],
       total_records = 0, filtered_records = 0,
       full_df = None, filtered_df = None, department_distribution = None \<rparr>"

definition scenario_ledger :: jobs where
  "scenario_ledger = extract_data Map.empty ''job-1'' request_2024"

text \<open>Catalogues whose second page ends the fetch, and one whose first page is faulty.\<close>

definition notice :: "string \<Rightarrow> string \<Rightarrow> record_t" where
  "notice ident d = [(''idweb'', PStr ident), (''dateparution'', PStr d)]"

definition cutoff_remote :: remote where
  "cutoff_remote offset =
     (if offset = 0 then
        Results [notice ''24-1'' ''2024-05-02'', notice ''24-2'' ''2024-05-01'']
      else if offset = 100 then
        Results [notice ''24-3'' ''2024-05-01'', notice ''24-4'' ''2024-04-30'']
      else Results [notice ''24-5'' ''2024-04-29''])"

definition failing_remote :: remote where
  "failing_remote offset =
     (if offset = 0 then
        Results [notice ''24-1'' ''2024-05-01'', notice ''24-2'' ''2024-05-01'']
      else RequestException)"

definition faulty_remote :: remote where
  "faulty_remote offset = Results [[(''idweb'', PStr ''24-1''), (''dateparution'', PNone)]]"

section \<open>Properties\<close>

subsection \<open>Evaluation of the concrete inputs\<close>

lemma fetch_no_records: "get_all_records_for_date no_records_remote td 5000 = (Inr [], [0])"
  by (simp add: get_all_records_for_date_def fetch_loop.simps no_records_remote_def)

lemma scenario_fetch:
  "get_all_records_for_date scenario_remote ''2024-05-01'' 5000 =
     (Inr scenario_records, [0, 100])"
  by (simp add: get_all_records_for_date_def fetch_loop.simps scenario_remote_def
        scenario_records_def target_records_def date_before_def squote_def)

lemma scenario_fetch_one:
  "get_all_records_for_date scenario_remote ''2024-05-01'' 1 = (Inr scenario_records, [0])"
  by (simp add: get_all_records_for_date_def fetch_loop.simps scenario_remote_def
        scenario_records_def target_records_def date_before_def squote_def)

lemma scenario_records_length: "scenario_records \<noteq> []" "length scenario_records = 3"
  by (simp_all add: scenario_records_def)

lemma scenario_ledger_entry: "scenario_ledger ''job-1'' = Some started_job"
  by (simp add: scenario_ledger_def extract_data_def request_2024_def started_job_def)

lemma cutoff_fetch:
  "get_all_records_for_date cutoff_remote ''2024-05-01'' 5000 =
     (Inr [notice ''24-2'' ''2024-05-01'', notice ''24-3'' ''2024-05-01''], [0, 100])"
  by (simp add: get_all_records_for_date_def fetch_loop.simps cutoff_remote_def
        notice_def target_records_def date_before_def)

lemma failing_fetch:
  "get_all_records_for_date failing_remote ''2024-05-01'' 5000 =
     (Inr [notice ''24-1'' ''2024-05-01'', notice ''24-2'' ''2024-05-01''], [0, 100])"
  by (simp add: get_all_records_for_date_def fetch_loop.simps failing_remote_def
        notice_def target_records_def date_before_def)

lemma faulty_fetch:
  "get_all_records_for_date faulty_remote ''2024-05-01'' 5000 =
     (Inl (TypeError (squote @ ''<'' @ squote @ '' not supported between instances of '' @
           squote @ ''NoneType'' @ squote @ '' and '' @ squote @ ''str'' @ squote)), [0])"
  by (simp add: get_all_records_for_date_def fetch_loop.simps faulty_remote_def
        target_records_def date_before_def)

lemma faulty_message:
  "str_error (TypeError (squote @ ''<'' @ squote @ '' not supported between instances of '' @
           squote @ ''NoneType'' @ squote @ '' and '' @ squote @ ''str'' @ squote)) =
   squote @ ''<'' @ squote @ '' not supported between instances of '' @
           squote @ ''NoneType'' @ squote @ '' and '' @ squote @ ''str'' @ squote"
  by simp

lemma decode_92_75:
  "decode_departments (clean_value (PList [PStr ''92'', PStr ''75''])) = [''92'', ''75'']"
  by (simp add: json_string_def json_escape_char_def split_tokens_def clean_str_def
        py_strip_def py_remove_def is_bracket_def is_space_def)

lemma filter_92_75:
  "filter_by_departments df_92_75 [''75'', ''92''] =
     Inr \<lparr> columns = [''dateparution'', ''code_departement'', ''code_departement_trouve''],
           rows = [AList.update ''code_departement_trouve'' (CStr ''92'')
                     (clean_record record_92_75)] \<rparr>"
  by (simp add: filter_by_departments_def df_92_75_def create_excel_simple_def first_seen_def
        clean_record_def record_92_75_def row_departement_def na_or_empty_def
        json_string_def json_escape_char_def split_tokens_def clean_str_def
        py_strip_def py_remove_def is_bracket_def is_space_def set_trouve_def trouve_cell_def)

lemma scenario_filter:
  "filter_by_departments (create_excel_simple scenario_records ''2024-05-01'') [''75''] =
     Inr \<lparr> columns = [''dateparution'', ''code_departement'', ''code_departement_trouve''],
           rows = [AList.update ''code_departement_trouve'' (CStr ''75'')
                     (clean_record (hd scenario_records))] \<rparr>"
  by (simp add: scenario_records_def squote_def filter_by_departments_def
        create_excel_simple_def first_seen_def clean_record_def row_departement_def
        na_or_empty_def split_tokens_def clean_str_def py_strip_def py_remove_def
        is_bracket_def is_space_def set_trouve_def trouve_cell_def)

text \<open>
  The scenario end to end: three records fetched, one row kept, and the distribution
  that maps department 75 to one.
\<close>

lemma scenario_job:
  "\<exists>jobs' j dist.
      process_extraction scenario_remote scenario_ledger ''job-1'' ''2024-05-01'' 5000 [''75'']
        = Inr jobs'
      \<and> jobs' ''job-1'' = Some j \<and> status j = ''completed''
      \<and> total_records j = 3 \<and> filtered_records j = 1
      \<and> department_distribution j = Some dist
      \<and> dist (CStr ''75'') = Some 1 \<and> dom dist = {CStr ''75''}"
  apply (simp add: process_extraction_def scenario_ledger_def extract_data_def
      run_extraction_def scenario_fetch scenario_filter scenario_records_length Let_def)
  apply (auto simp add: value_counts_def column_values_def update_conv' dom_def)
  done

subsection \<open>The zero-record short circuit and the downloads\<close>

text \<open>
  C1, as the source has it. When the fetch of a submission yields no record, the job ends
  with status \<open>completed\<close> and both counts zero; no dataset is stored, and both download
  endpoints answer with the error 404 (\<open>Full data not available\<close>, \<open>Filtered data not
  available\<close>) instead of a spreadsheet.
\<close>

theorem zero_records_short_circuit:
  assumes "fst (get_all_records_for_date remote (req_target_date request)
                  (req_max_records request)) = Inr []"
  shows "\<exists>jobs' j. submit_and_run remote jobs job_id request = Inr jobs'
           \<and> jobs' job_id = Some j
           \<and> status j = ''completed'' \<and> total_records j = 0 \<and> filtered_records j = 0
           \<and> full_df j = None \<and> filtered_df j = None
           \<and> download_full_data jobs' job_id timestamp =
               Inl (HTTPException 404 ''Full data not available'')
           \<and> download_filtered_data jobs' job_id timestamp =
               Inl (HTTPException 404 ''Filtered data not available'')"
  using assms
  by (simp add: submit_and_run_def process_extraction_def extract_data_def run_extraction_def
        download_full_data_def download_filtered_data_def)

theorem zero_records_short_circuit_witness:
  "fst (get_all_records_for_date no_records_remote (req_target_date request_2024)
          (req_max_records request_2024)) = Inr []
   \<and> (\<exists>jobs' j. submit_and_run no_records_remote Map.empty ''job-1'' request_2024 = Inr jobs'
           \<and> jobs' ''job-1'' = Some j
           \<and> status j = ''completed'' \<and> total_records j = 0 \<and> filtered_records j = 0
           \<and> full_df j = None \<and> filtered_df j = None
           \<and> download_full_data jobs' ''job-1'' ''20240502_080000'' =
               Inl (HTTPException 404 ''Full data not available'')
           \<and> download_filtered_data jobs' ''job-1'' ''20240502_080000'' =
               Inl (HTTPException 404 ''Filtered data not available''))"
proof -
  have h: "fst (get_all_records_for_date no_records_remote (req_target_date request_2024)
                  (req_max_records request_2024)) = Inr []"
    by (simp add: request_2024_def fetch_no_records)
  from zero_records_short_circuit [OF h, of Map.empty "''job-1''" "''20240502_080000''"] h
  show ?thesis by blast
qed

text \<open>
  C1 as the specification states it fails: after a submission against the catalogue without
  records the job is completed, and neither download endpoint returns a spreadsheet.
\<close>

theorem zero_records_download_counterexample:
  "(case submit_and_run no_records_remote Map.empty ''job-1'' request_2024 of
      Inl e \<Rightarrow> False
    | Inr jobs' \<Rightarrow>
        map_option status (jobs' ''job-1'') = Some ''completed''
        \<and> download_full_data jobs' ''job-1'' ''20240502_080000'' =
            Inl (HTTPException 404 ''Full data not available'')
        \<and> download_filtered_data jobs' ''job-1'' ''20240502_080000'' =
            Inl (HTTPException 404 ''Filtered data not available''))"
  by (simp add: submit_and_run_def process_extraction_def extract_data_def run_extraction_def
        download_full_data_def download_filtered_data_def request_2024_def fetch_no_records)

text \<open>
  C9. A download endpoint returns a spreadsheet exactly when the job exists, its status is
  \<open>completed\<close> and the dataset of that endpoint is stored; the sheet is then the stored
  dataset, and every other answer is an error with status code 404.
\<close>

theorem download_gate:
  "((\<exists>sp. download_full_data jobs job_id timestamp = Inr sp) \<longleftrightarrow>
      (\<exists>j df. jobs job_id = Some j \<and> status j = ''completed'' \<and> full_df j = Some df))
   \<and> ((\<exists>sp. download_filtered_data jobs job_id timestamp = Inr sp) \<longleftrightarrow>
      (\<exists>j df. jobs job_id = Some j \<and> status j = ''completed'' \<and> filtered_df j = Some df))
   \<and> (\<forall>sp j. download_full_data jobs job_id timestamp = Inr sp \<and> jobs job_id = Some j
         \<longrightarrow> full_df j = Some (sheet sp))
   \<and> (\<forall>sp j. download_filtered_data jobs job_id timestamp = Inr sp \<and> jobs job_id = Some j
         \<longrightarrow> filtered_df j = Some (sheet sp))
   \<and> (\<forall>e. download_full_data jobs job_id timestamp = Inl e
         \<longrightarrow> (\<exists>m. e = HTTPException 404 m))
   \<and> (\<forall>e. download_filtered_data jobs job_id timestamp = Inl e
         \<longrightarrow> (\<exists>m. e = HTTPException 404 m))"
  by (auto simp add: download_full_data_def download_filtered_data_def
        split: option.splits if_splits)

theorem download_gate_witness:
  "download_full_data half_stored_ledger ''job-1'' ''20240502_080000'' =
     Inr \<lparr> filename = ''BOAMP_Full_Results_2024-05-01_20240502_080000.xlsx'',
           sheet_name = ''BOAMP_Data'', sheet = one_row_df \<rparr>
   \<and> half_stored_ledger ''job-1'' = Some half_stored_job
   \<and> full_df half_stored_job = Some one_row_df
   \<and> download_filtered_data half_stored_ledger ''job-1'' ''20240502_080000'' =
       Inl (HTTPException 404 ''Filtered data not available'')
   \<and> \<not> (\<exists>j df. half_stored_ledger ''job-1'' = Some j \<and> status j = ''completed''
                \<and> filtered_df j = Some df)"
  using download_gate [of half_stored_ledger "''job-1''" "''20240502_080000''"]
  by (simp add: download_full_data_def download_filtered_data_def half_stored_ledger_def
        half_stored_job_def)

subsection \<open>Decoding of the department field\<close>

lemma py_strip_id: "s = [] \<or> (\<not> p (hd s) \<and> \<not> p (last s)) \<Longrightarrow> py_strip p s = s"
proof (cases s)
  case Nil
  then show ?thesis by (simp add: py_strip_def)
next
  case (Cons x xs)
  assume "s = [] \<or> (\<not> p (hd s) \<and> \<not> p (last s))"
  with Cons have a: "\<not> p x" and b: "\<not> p (last s)" by auto
  from a Cons have "dropWhile p s = s" by simp
  moreover from Cons have "hd (rev s) = last s" by (simp add: hd_rev del: rev.simps)
  with b have "dropWhile p (rev s) = rev s"
    by (simp add: dropWhile_eq_self_iff del: rev.simps)
  ultimately show ?thesis by (simp add: py_strip_def)
qed

lemma py_split_no_sep: "c \<notin> set p \<Longrightarrow> py_split c p = [p]"
  by (induction p) auto

lemma py_split_append_sep: "c \<notin> set p \<Longrightarrow> py_split c (p @ c # rest) = p # py_split c rest"
  by (induction p) auto

lemma py_split_join:
  "toks \<noteq> [] \<Longrightarrow> \<forall>t\<in>set toks. c \<notin> set t \<Longrightarrow> py_split c (py_join [c] toks) = toks"
proof (induction "[c]" toks rule: py_join.induct)
  case 1
  then show ?case by simp
next
  case (2 p)
  then show ?case by (simp add: py_split_no_sep)
next
  case (3 p q ps)
  then show ?case by (simp add: py_split_append_sep)
qed

lemma clean_token_strip: "clean_token t \<Longrightarrow> py_strip is_space t = t"
  by (rule py_strip_id) (simp add: clean_token_def)

lemma split_tokens_join:
  assumes "\<forall>t\<in>set toks. clean_token t"
  shows "split_tokens (py_join '','' toks) = toks"
proof (cases "toks = []")
  case True
  then show ?thesis by (simp add: split_tokens_def py_strip_def)
next
  case False
  from assms have "\<forall>t\<in>set toks. CHR '','' \<notin> set t" by (simp add: clean_token_def)
  with False have sp: "py_split (CHR '','') (py_join '','' toks) = toks"
    by (rule py_split_join)
  from assms have st: "\<forall>t\<in>set toks. py_strip is_space t = t"
    by (simp add: clean_token_strip)
  from assms have ne: "\<forall>t\<in>set toks. t \<noteq> []" by (simp add: clean_token_def)
  from st ne have "filter (\<lambda>dep. py_strip is_space dep \<noteq> []) toks = toks"
    by (simp add: filter_id_conv)
  moreover from st have "map (py_strip is_space) toks = toks"
    by (simp add: map_idI)
  ultimately show ?thesis by (simp add: split_tokens_def sp)
qed

lemma set_py_join: "set (py_join sep toks) \<subseteq> set sep \<union> \<Union> (set ` set toks)"
  by (induction sep toks rule: py_join.induct) auto

lemma hd_py_join: "toks \<noteq> [] \<Longrightarrow> hd toks \<noteq> [] \<Longrightarrow> hd (py_join sep toks) = hd (hd toks)"
  by (induction sep toks rule: py_join.induct) auto

lemma py_join_Nil_iff: "\<forall>t\<in>set toks. t \<noteq> [] \<Longrightarrow> py_join sep toks = [] \<longleftrightarrow> toks = []"
  by (induction sep toks rule: py_join.induct) auto

lemma last_py_join:
  "toks \<noteq> [] \<Longrightarrow> \<forall>t\<in>set toks. t \<noteq> [] \<Longrightarrow> last (py_join sep toks) = last (last toks)"
  by (induction sep toks rule: py_join.induct) (auto simp: py_join_Nil_iff)

lemma py_remove_join:
  "py_remove c (py_join sep toks) = py_join (py_remove c sep) (map (py_remove c) toks)"
  by (induction sep toks rule: py_join.induct) (auto simp: py_remove_def)

lemma py_remove_id: "c \<notin> set s \<Longrightarrow> py_remove c s = s"
  by (auto simp: py_remove_def filter_id_conv)

lemma clean_str_bare:
  assumes "\<forall>t\<in>set toks. clean_token t"
    and "toks \<noteq> [] \<longrightarrow> \<not> is_bracket (hd (hd toks)) \<and> \<not> is_bracket (last (last toks))"
  shows "clean_str (py_join '','' toks) = py_join '','' toks"
proof -
  from assms(1) have ne: "\<forall>t\<in>set toks. t \<noteq> []" by (simp add: clean_token_def)
  have "py_join '','' toks = []
        \<or> (\<not> is_bracket (hd (py_join '','' toks)) \<and> \<not> is_bracket (last (py_join '','' toks)))"
  proof (cases "toks = []")
    case True
    then show ?thesis by simp
  next
    case False
    with ne have "hd toks \<noteq> []" by (cases toks) auto
    with False ne assms(2) show ?thesis by (simp add: hd_py_join last_py_join)
  qed
  then have s: "py_strip is_bracket (py_join '','' toks) = py_join '','' toks"
    by (rule py_strip_id)
  from assms(1) have "CHR 0x22 \<notin> set (py_join '','' toks)" "CHR 0x27 \<notin> set (py_join '','' toks)"
    using set_py_join [of "'',''" toks] by (auto simp: clean_token_def)
  then show ?thesis by (simp add: clean_str_def s py_remove_id)
qed

lemma py_strip_brackets_wrapped:
  assumes "body = [] \<or> (\<not> is_bracket (hd body) \<and> \<not> is_bracket (last body))"
  shows "py_strip is_bracket (''['' @ body @ '']'') = body"
proof (cases "body = []")
  case True
  then show ?thesis by (simp add: py_strip_def is_bracket_def)
next
  case False
  with assms have h: "\<not> is_bracket (hd body)" and l: "\<not> is_bracket (last body)" by auto
  from False h have d1: "dropWhile is_bracket (''['' @ body @ '']'') = body @ '']''"
    by (cases body) (auto simp: is_bracket_def)
  from False l have d2: "dropWhile is_bracket (rev (body @ '']'')) = rev body"
    by (simp add: is_bracket_def dropWhile_eq_self_iff hd_rev)
  show ?thesis unfolding py_strip_def d1 d2 by simp
qed

lemma clean_str_quoted:
  assumes "\<forall>t\<in>set toks. clean_token t"
  shows "clean_str (''['' @ py_join '','' (map (\<lambda>t. [CHR 0x22] @ t @ [CHR 0x22]) toks) @ '']'')
         = py_join '','' toks"
proof -
  let ?q = "\<lambda>t. [CHR 0x22] @ t @ [CHR 0x22]"
  let ?body = "py_join '','' (map ?q toks)"
  have "?body = [] \<or> (\<not> is_bracket (hd ?body) \<and> \<not> is_bracket (last ?body))"
  proof (cases "toks = []")
    case True
    then show ?thesis by simp
  next
    case False
    then have "hd ?body = CHR 0x22"
      by (cases toks) (simp_all add: hd_py_join)
    moreover from False have "last ?body = CHR 0x22"
      by (simp add: last_py_join last_map)
    ultimately show ?thesis by (simp add: is_bracket_def)
  qed
  then have s: "py_strip is_bracket (''['' @ ?body @ '']'') = ?body"
    by (rule py_strip_brackets_wrapped)
  from assms have "map (py_remove (CHR 0x22)) (map ?q toks) = toks"
    by (auto simp: py_remove_def clean_token_def filter_id_conv intro!: map_idI)
  moreover have "py_remove (CHR 0x22) '','' = '',''"
    by (simp add: py_remove_def)
  moreover have "py_remove (CHR 0x22) ?body =
      py_join (py_remove (CHR 0x22) '','') (map (py_remove (CHR 0x22)) (map ?q toks))"
    by (rule py_remove_join)
  ultimately have r: "py_remove (CHR 0x22) ?body = py_join '','' toks"
    by (simp del: map_map)
  from assms have "CHR 0x27 \<notin> set (py_join '','' toks)"
    using set_py_join [of "'',''" toks] by (auto simp: clean_token_def)
  then show ?thesis unfolding clean_str_def s r by (simp add: py_remove_id)
qed

lemma py_split_not_Nil: "py_split c s \<noteq> []"
  by (induction s) auto

lemma py_split_pieces: "x \<in> set (py_split c s) \<Longrightarrow> c \<notin> set x \<and> set x \<subseteq> set s"
proof (induction s arbitrary: x)
  case Nil
  then show ?case by simp
next
  case (Cons a s)
  obtain w ws where w: "py_split c s = w # ws"
    using py_split_not_Nil [of c s] by (cases "py_split c s") auto
  have IHw: "c \<notin> set w \<and> set w \<subseteq> set s" using Cons.IH [of w] w by simp
  show ?case
  proof (cases "a = c")
    case True
    with Cons.prems have "x = [] \<or> x \<in> set (py_split c s)" by simp
    with Cons.IH show ?thesis by auto
  next
    case False
    with Cons.prems w have "x = a # w \<or> x \<in> set ws" by simp
    then show ?thesis
    proof
      assume "x = a # w"
      with False IHw show ?thesis by auto
    next
      assume "x \<in> set ws"
      then have "x \<in> set (py_split c s)" using w by simp
      with Cons.IH show ?thesis by auto
    qed
  qed
qed

lemma set_py_strip: "set (py_strip p x) \<subseteq> set x"
  by (auto simp: py_strip_def dest!: set_dropWhileD)

lemma py_strip_ends:
  assumes "py_strip p x \<noteq> []"
  shows "\<not> p (hd (py_strip p x))" and "\<not> p (last (py_strip p x))"
proof -
  let ?y = "dropWhile p x"
  let ?t = "py_strip p x"
  from assms have d: "dropWhile p (rev ?y) \<noteq> []" by (simp add: py_strip_def)
  then have "\<not> p (hd (dropWhile p (rev ?y)))" by (rule hd_dropWhile)
  then show "\<not> p (last ?t)" by (simp add: py_strip_def last_rev)
  have y: "?y \<noteq> []"
  proof
    assume "?y = []"
    with d show False by simp
  qed
  then have hy: "\<not> p (hd ?y)" by (rule hd_dropWhile)
  have "?t @ rev (takeWhile p (rev ?y)) =
          rev (takeWhile p (rev ?y) @ dropWhile p (rev ?y))"
    by (simp add: py_strip_def del: takeWhile_dropWhile_id)
  also have "\<dots> = ?y" by (simp only: takeWhile_dropWhile_id rev_rev_ident)
  finally have "?y = ?t @ rev (takeWhile p (rev ?y))" by simp
  with assms have "hd ?y = hd ?t" by (metis hd_append2)
  with hy show "\<not> p (hd ?t)" by simp
qed

lemma clean_str_no_quotes: "CHR 0x22 \<notin> set (clean_str s) \<and> CHR 0x27 \<notin> set (clean_str s)"
  by (simp add: clean_str_def py_remove_def)

lemma decoded_tokens_clean:
  assumes "t \<in> set (decode_departments (CStr s))"
  shows "clean_token t"
proof -
  from assms obtain x where x: "x \<in> set (py_split (CHR '','') (clean_str s))"
    and t: "t = py_strip is_space x" and ne: "t \<noteq> []"
    by (auto simp: split_tokens_def)
  from py_split_pieces [OF x] have "CHR '','' \<notin> set x" "set x \<subseteq> set (clean_str s)"
    by simp_all
  with set_py_strip [of is_space x] clean_str_no_quotes [of s] t
  have "CHR '','' \<notin> set t" "CHR 0x22 \<notin> set t" "CHR 0x27 \<notin> set t" by auto
  moreover from ne t have "\<not> is_space (hd t)" "\<not> is_space (last t)"
    using py_strip_ends [of is_space x] by simp_all
  ultimately show ?thesis using ne by (simp add: clean_token_def)
qed

lemma string_forms_need_clean_tokens:
  assumes "decode_departments (clean_value (quoted_field toks)) = toks
           \<or> decode_departments (clean_value (bare_field toks)) = toks"
    and "t \<in> set toks"
  shows "clean_token t"
proof -
  from assms(1) obtain s where "decode_departments (CStr s) = toks"
    unfolding quoted_field_def bare_field_def clean_value.simps by blast
  with assms(2) have "t \<in> set (decode_departments (CStr s))" by simp
  then show ?thesis by (rule decoded_tokens_clean)
qed

lemma py_join_Cons_Cons: "py_join sep ((x # w) # ws) = x # py_join sep (w # ws)"
  by (cases ws) simp_all

lemma py_join_split: "py_join [c] (py_split c s) = s"
proof (induction s)
  case Nil
  then show ?case by simp
next
  case (Cons x xs)
  obtain w ws where w: "py_split c xs = w # ws"
    using py_split_not_Nil [of c xs] by (cases "py_split c xs") auto
  with Cons show ?case by (simp add: py_join_Cons_Cons)
qed

lemma length_py_join:
  "length (py_join sep xs) = sum_list (map length xs) + length sep * (length xs - 1)"
  by (induction sep xs rule: py_join.induct) simp_all

lemma length_py_strip: "length (py_strip p x) \<le> length x"
proof -
  have "length (py_strip p x) \<le> length (dropWhile p x)"
    using length_dropWhile_le [of p "rev (dropWhile p x)"] by (simp add: py_strip_def)
  also have "\<dots> \<le> length x" by (rule length_dropWhile_le)
  finally show ?thesis .
qed

lemma sum_length_filter: "sum_list (map length (filter P xs)) \<le> sum_list (map length xs)"
  by (induction xs) auto

lemma sum_length_strip: "sum_list (map length (map (py_strip p) xs)) \<le> sum_list (map length xs)"
proof (induction xs)
  case Nil
  then show ?case by simp
next
  case (Cons x xs)
  with length_py_strip [of p x] show ?case by simp
qed

lemma length_join_split_tokens: "length (py_join '','' (split_tokens s)) \<le> length s"
proof -
  let ?ps = "py_split (CHR '','') s"
  let ?fs = "filter (\<lambda>dep. py_strip is_space dep \<noteq> []) ?ps"
  have "sum_list (map length (split_tokens s)) \<le> sum_list (map length ?fs)"
    unfolding split_tokens_def by (rule sum_length_strip)
  also have "\<dots> \<le> sum_list (map length ?ps)" by (rule sum_length_filter)
  finally have a: "sum_list (map length (split_tokens s)) \<le> sum_list (map length ?ps)" .
  have b: "length (split_tokens s) \<le> length ?ps" by (simp add: split_tokens_def)
  have "length (py_join '','' (split_tokens s)) \<le> length (py_join '','' ?ps)"
    using a b by (simp add: length_py_join)
  then show ?thesis by (simp add: py_join_split)
qed

lemma py_strip_same_length:
  assumes "length (py_strip p s) = length s"
  shows "s = [] \<or> (\<not> p (hd s) \<and> \<not> p (last s))"
proof (cases "s = []")
  case True
  then show ?thesis by simp
next
  case False
  have l1: "length (py_strip p s) \<le> length (dropWhile p s)"
    using length_dropWhile_le [of p "rev (dropWhile p s)"] by (simp add: py_strip_def)
  have l2: "length (dropWhile p s) \<le> length s" by (rule length_dropWhile_le)
  from assms l1 l2 have e: "length (dropWhile p s) = length s" by simp
  have d: "dropWhile p s = s"
  proof -
    have "length (takeWhile p s) + length (dropWhile p s) = length s"
      by (simp add: length_append [symmetric] del: length_append)
    with e have "takeWhile p s = []" by simp
    then show ?thesis using takeWhile_dropWhile_id [of p s] by simp
  qed
  with False have h: "\<not> p (hd s)" by (simp add: dropWhile_eq_self_iff)
  from assms d have "length (dropWhile p (rev s)) = length (rev s)" by (simp add: py_strip_def)
  then have "dropWhile p (rev s) = rev s"
  proof -
    assume e2: "length (dropWhile p (rev s)) = length (rev s)"
    have "length (takeWhile p (rev s)) + length (dropWhile p (rev s)) = length (rev s)"
      by (simp add: length_append [symmetric] del: length_append)
    with e2 have "takeWhile p (rev s) = []" by simp
    then show ?thesis using takeWhile_dropWhile_id [of p "rev s"] by simp
  qed
  with False have "\<not> p (hd (rev s))" by (simp add: dropWhile_eq_self_iff)
  with False have "\<not> p (last s)" by (simp add: hd_rev)
  with h show ?thesis by simp
qed

lemma length_py_remove: "length (py_remove c s) \<le> length s"
  by (simp add: py_remove_def)

lemma length_clean_str: "length (clean_str s) \<le> length (py_strip is_bracket s)"
proof -
  have "length (clean_str s) \<le> length (py_remove (CHR 0x22) (py_strip is_bracket s))"
    unfolding clean_str_def by (rule length_py_remove)
  also have "\<dots> \<le> length (py_strip is_bracket s)" by (rule length_py_remove)
  finally show ?thesis .
qed

lemma bare_field_needs_plain_ends:
  assumes dec: "decode_departments (clean_value (bare_field toks)) = toks"
    and ne: "toks \<noteq> []"
  shows "\<not> is_bracket (hd (hd toks)) \<and> \<not> is_bracket (last (last toks))"
proof -
  let ?s = "py_join '','' toks"
  from dec have cl: "\<forall>t\<in>set toks. clean_token t"
    using string_forms_need_clean_tokens by blast
  then have tne: "\<forall>t\<in>set toks. t \<noteq> []" by (simp add: clean_token_def)
  from dec have "split_tokens (clean_str ?s) = toks" by (simp add: bare_field_def)
  then have "length ?s = length (py_join '','' (split_tokens (clean_str ?s)))" by simp
  also have "\<dots> \<le> length (clean_str ?s)" by (rule length_join_split_tokens)
  also have "\<dots> \<le> length (py_strip is_bracket ?s)" by (rule length_clean_str)
  finally have "length ?s \<le> length (py_strip is_bracket ?s)" .
  with length_py_strip [of is_bracket ?s] have "length (py_strip is_bracket ?s) = length ?s"
    by simp
  from py_strip_same_length [OF this] have
    "?s = [] \<or> (\<not> is_bracket (hd ?s) \<and> \<not> is_bracket (last ?s))" .
  moreover from ne tne have "?s \<noteq> []" by (simp add: py_join_Nil_iff)
  moreover from ne tne have "hd toks \<noteq> []" by (cases toks) auto
  ultimately show ?thesis using ne tne by (simp add: hd_py_join last_py_join)
qed

lemma row_tokens_CStr: "row_tokens (CStr s) = Inr (decode_departments (CStr s))"
proof (cases "s = []")
  case True
  then show ?thesis
    by (simp add: row_tokens_def na_or_empty_def split_tokens_def clean_str_def py_strip_def
          py_remove_def)
next
  case False
  then show ?thesis by (simp add: row_tokens_def na_or_empty_def)
qed

lemma row_departement_tokens:
  "row_departement r ts =
     (case map_of r ''code_departement'' of
        None \<Rightarrow> Inr None
      | Some c \<Rightarrow>
          (case row_tokens c of Inl e \<Rightarrow> Inl e | Inr toks \<Rightarrow> Inr (scan_departments toks ts)))"
  by (simp add: row_departement_def row_tokens_def split: option.splits sum.splits bool.splits)

lemma hex_digit_code:
  "d < 16 \<Longrightarrow> (48 \<le> (of_char (hex_digit d) :: nat) \<and> (of_char (hex_digit d) :: nat) \<le> 57)
     \<or> (97 \<le> (of_char (hex_digit d) :: nat) \<and> (of_char (hex_digit d) :: nat) \<le> 102)"
  by (simp add: hex_digit_def)

lemma json_escape_char_set:
  "set (json_escape_char c) \<subseteq>
     {c, CHR 0x5C, CHR ''b'', CHR ''f'', CHR ''n'', CHR ''r'', CHR ''t'', CHR ''u'', CHR ''0'',
      hex_digit (of_char c div 16), hex_digit (of_char c mod 16)}"
  by (simp add: json_escape_char_def)

lemma json_escape_char_codes:
  assumes "x \<in> set (json_escape_char c)"
  shows "x = c \<or> (48 \<le> (of_char x :: nat) \<and> (of_char x :: nat) \<le> 57)
         \<or> (92 \<le> (of_char x :: nat) \<and> (of_char x :: nat) \<le> 117)"
proof -
  have "(of_char c :: nat) mod 256 < 256" by (rule mod_less_divisor) simp
  then have "(of_char c :: nat) < 16 * 16" by simp
  then have d: "of_char c div 16 < (16::nat)" by (rule less_mult_imp_div_less)
  have m: "of_char c mod 16 < (16::nat)" by simp
  from assms json_escape_char_set [of c] have
    "x \<in> {c, CHR 0x5C, CHR ''b'', CHR ''f'', CHR ''n'', CHR ''r'', CHR ''t'', CHR ''u'', CHR ''0'',
      hex_digit (of_char c div 16), hex_digit (of_char c mod 16)}" by blast
  then consider "x = c" | "x \<in> {CHR 0x5C, CHR ''b'', CHR ''f'', CHR ''n'', CHR ''r'', CHR ''t'', CHR ''u'', CHR ''0''}"
    | "x = hex_digit (of_char c div 16)" | "x = hex_digit (of_char c mod 16)" by blast
  then show ?thesis
  proof cases
    case 1
    then show ?thesis by simp
  next
    case 2
    then show ?thesis by auto
  next
    case 3
    with hex_digit_code [OF d] show ?thesis by auto
  next
    case 4
    with hex_digit_code [OF m] show ?thesis by auto
  qed
qed

lemma json_escape_char_plain:
  "json_escape_char c = [c] \<longleftrightarrow> c \<noteq> CHR 0x5C \<and> c \<noteq> CHR 0x22 \<and> 32 \<le> (of_char c :: nat)"
  by (auto simp: json_escape_char_def)

lemma json_escape_char_not_Nil: "json_escape_char c \<noteq> []"
  by (simp add: json_escape_char_def)

lemma length_json_escape: "length t \<le> length (json_escape t)"
proof (induction t)
  case Nil
  then show ?case by (simp add: json_escape_def)
next
  case (Cons c cs)
  have "1 \<le> length (json_escape_char c)"
    using json_escape_char_not_Nil [of c] by (cases "json_escape_char c") simp_all
  with Cons show ?case by (simp add: json_escape_def)
qed

lemma json_escape_plain: "json_plain t \<Longrightarrow> json_escape t = t"
  by (induction t) (auto simp: json_escape_def json_plain_def json_escape_char_plain)

lemma json_escape_hd: "hd (json_escape_char c) = c \<or> hd (json_escape_char c) = CHR 0x5C"
  by (simp add: json_escape_char_def)

lemma json_escape_fixed:
  assumes "json_escape t = t"
  shows "json_plain t"
  using assms
proof (induction t)
  case Nil
  then show ?case by (simp add: json_plain_def)
next
  case (Cons c cs)
  from Cons.prems have eq: "json_escape_char c @ json_escape cs = c # cs"
    by (simp add: json_escape_def)
  have one: "json_escape_char c = [c]"
  proof (rule ccontr)
    assume n: "json_escape_char c \<noteq> [c]"
    from eq have "length (json_escape_char c) + length (json_escape cs) = Suc (length cs)"
      by (metis length_append length_Cons)
    with length_json_escape [of cs] have "length (json_escape_char c) \<le> 1" by simp
    with json_escape_char_not_Nil [of c] obtain x where x: "json_escape_char c = [x]"
      by (cases "json_escape_char c") (auto simp: le_Suc_eq)
    with eq have "x = c" by simp
    with x n show False by simp
  qed
  with eq have "json_escape cs = cs" by simp
  from Cons.IH [OF this] one show ?case
    by (auto simp: json_plain_def json_escape_char_plain)
qed

lemma json_escape_eq_iff: "json_escape t = t \<longleftrightarrow> json_plain t"
  using json_escape_fixed json_escape_plain by blast

lemma json_string_escape: "json_string t = [CHR 0x22] @ json_escape t @ [CHR 0x22]"
  by (simp add: json_string_def json_escape_def)

lemma set_json_escape:
  assumes "x \<in> set (json_escape t)"
  shows "x \<in> set t \<or> (48 \<le> (of_char x :: nat) \<and> (of_char x :: nat) \<le> 57)
         \<or> (92 \<le> (of_char x :: nat) \<and> (of_char x :: nat) \<le> 117)"
proof -
  from assms obtain c where "c \<in> set t" "x \<in> set (json_escape_char c)"
    by (auto simp: json_escape_def)
  with json_escape_char_codes [of x c] show ?thesis by auto
qed

lemma json_escape_keeps_out:
  assumes "k \<notin> set t"
    and "(of_char k :: nat) < 48 \<or> (57 < (of_char k :: nat) \<and> (of_char k :: nat) < 92)
         \<or> 117 < (of_char k :: nat)"
  shows "k \<notin> set (json_escape t)"
  using assms set_json_escape [of k t] by auto

lemma json_escape_no_dquote: "CHR 0x22 \<notin> set t \<Longrightarrow> CHR 0x22 \<notin> set (json_escape t)"
  by (rule json_escape_keeps_out) simp_all

lemma json_escape_no_squote: "CHR 0x27 \<notin> set t \<Longrightarrow> CHR 0x27 \<notin> set (json_escape t)"
  by (rule json_escape_keeps_out) simp_all

lemma json_escape_no_comma: "CHR '','' \<notin> set t \<Longrightarrow> CHR '','' \<notin> set (json_escape t)"
  by (rule json_escape_keeps_out) simp_all

lemma is_space_code:
  "is_space k \<Longrightarrow> (of_char k :: nat) < 48 \<or> 117 < (of_char k :: nat)"
  by (auto simp: is_space_def Let_def)

lemma json_escape_not_Nil: "t \<noteq> [] \<Longrightarrow> json_escape t \<noteq> []"
  by (cases t) (simp_all add: json_escape_def json_escape_char_not_Nil)

lemma json_escape_hd_space:
  assumes "t \<noteq> []" and "\<not> is_space (hd t)"
  shows "\<not> is_space (hd (json_escape t))"
proof -
  from assms(1) obtain c cs where t: "t = c # cs" by (cases t) auto
  then have "hd (json_escape t) = hd (json_escape_char c)"
    by (simp add: json_escape_def json_escape_char_not_Nil)
  with json_escape_hd [of c] have "hd (json_escape t) = c \<or> hd (json_escape t) = CHR 0x5C"
    by simp
  moreover have "\<not> is_space (CHR 0x5C)" by (simp add: is_space_def)
  ultimately show ?thesis using assms(2) t by auto
qed

lemma json_escape_last_space:
  assumes "t \<noteq> []" and "\<not> is_space (last t)"
  shows "\<not> is_space (last (json_escape t))"
proof -
  from assms(1) have t: "t = butlast t @ [last t]" by simp
  have "json_escape t = json_escape (butlast t) @ json_escape_char (last t)"
    by (subst t) (simp add: json_escape_def)
  then have "last (json_escape t) = last (json_escape_char (last t))"
    by (simp add: json_escape_char_not_Nil)
  moreover have "last (json_escape_char (last t)) \<in> set (json_escape_char (last t))"
    by (simp add: json_escape_char_not_Nil)
  ultimately have "last (json_escape t) \<in> set (json_escape_char (last t))" by simp
  from json_escape_char_codes [OF this] is_space_code [of "last (json_escape t)"] assms(2)
  show ?thesis by auto
qed

lemma py_split_join_comma_space:
  assumes "xs \<noteq> []" and "\<forall>x\<in>set xs. CHR '','' \<notin> set x"
  shows "py_split (CHR '','') (py_join '', '' xs) = hd xs # map ((#) CHR '' '') (tl xs)"
  using assms
proof (induction "'', ''" xs rule: py_join.induct)
  case 1
  then show ?case by simp
next
  case (2 p)
  then show ?case by (simp add: py_split_no_sep)
next
  case (3 p q ps)
  then have IH: "py_split (CHR '','') (py_join '', '' (q # ps)) = q # map ((#) CHR '' '') ps"
    by simp
  from 3 have "py_split (CHR '','') (py_join '', '' (p # q # ps)) =
               p # py_split (CHR '','') (CHR '' '' # py_join '', '' (q # ps))"
    using py_split_append_sep [of "CHR '',''" p "CHR '' '' # py_join '', '' (q # ps)"]
    by simp
  also have "py_split (CHR '','') (CHR '' '' # py_join '', '' (q # ps)) =
             (CHR '' '' # q) # map ((#) CHR '' '') ps"
    by (simp add: IH)
  finally show ?case by simp
qed

lemma py_strip_leading_blank:
  assumes "x \<noteq> []" and "\<not> is_space (hd x)" and "\<not> is_space (last x)"
  shows "py_strip is_space (CHR '' '' # x) = x"
proof -
  have "is_space (CHR '' '')" by (simp add: is_space_def)
  then have "py_strip is_space (CHR '' '' # x) = py_strip is_space x"
    by (simp add: py_strip_def)
  also have "\<dots> = x" using assms by (intro py_strip_id) simp
  finally show ?thesis .
qed

lemma split_tokens_join_comma_space:
  assumes "\<forall>x\<in>set xs. x \<noteq> [] \<and> CHR '','' \<notin> set x \<and> \<not> is_space (hd x) \<and> \<not> is_space (last x)"
  shows "split_tokens (py_join '', '' xs) = xs"
proof (cases xs)
  case Nil
  then show ?thesis by (simp add: split_tokens_def py_strip_def)
next
  case (Cons y ys)
  from assms have c: "\<forall>x\<in>set xs. CHR '','' \<notin> set x" by simp
  from Cons have "xs \<noteq> []" by simp
  from py_split_join_comma_space [OF this c] Cons have
    sp: "py_split (CHR '','') (py_join '', '' xs) = y # map ((#) CHR '' '') ys" by simp
  from assms Cons have y: "py_strip is_space y = y" "y \<noteq> []"
    by (simp_all add: py_strip_id)
  from assms Cons have ys: "\<forall>x\<in>set ys. py_strip is_space (CHR '' '' # x) = x \<and> x \<noteq> []"
    by (simp add: py_strip_leading_blank)
  then have f: "filter (\<lambda>dep. py_strip is_space dep \<noteq> []) (map ((#) CHR '' '') ys) =
                map ((#) CHR '' '') ys"
    by (auto simp: filter_id_conv)
  from ys have m: "map (py_strip is_space) (map ((#) CHR '' '') ys) = ys"
    by (auto intro!: map_idI)
  show ?thesis unfolding split_tokens_def sp using y f m Cons by simp
qed

lemma clean_str_json_list:
  assumes "\<forall>t\<in>set toks. CHR 0x22 \<notin> set t \<and> CHR 0x27 \<notin> set t"
  shows "clean_str (json_dumps (list_field toks)) = py_join '', '' (map json_escape toks)"
proof -
  let ?body = "py_join '', '' (map json_string toks)"
  have d: "json_dumps (list_field toks) = ''['' @ ?body @ '']''"
    by (simp add: list_field_def comp_def)
  have "?body = [] \<or> (\<not> is_bracket (hd ?body) \<and> \<not> is_bracket (last ?body))"
  proof (cases "toks = []")
    case True
    then show ?thesis by simp
  next
    case False
    then have "hd ?body = CHR 0x22"
      by (cases toks) (simp_all add: hd_py_join json_string_escape)
    moreover from False have "last ?body = CHR 0x22"
      by (simp add: last_py_join last_map json_string_escape)
    ultimately show ?thesis by (simp add: is_bracket_def)
  qed
  then have s: "py_strip is_bracket (''['' @ ?body @ '']'') = ?body"
    by (rule py_strip_brackets_wrapped)
  have dq: "\<forall>t\<in>set toks. CHR 0x22 \<notin> set (json_escape t)"
    using assms by (simp add: json_escape_no_dquote)
  have sq: "\<forall>t\<in>set toks. CHR 0x27 \<notin> set (json_escape t)"
    using assms by (simp add: json_escape_no_squote)
  from dq have "map (py_remove (CHR 0x22)) (map json_string toks) = map json_escape toks"
    by (auto simp: json_string_escape py_remove_def filter_id_conv)
  moreover have "py_remove (CHR 0x22) '', '' = '', ''" by (simp add: py_remove_def)
  moreover have "py_remove (CHR 0x22) ?body =
      py_join (py_remove (CHR 0x22) '', '') (map (py_remove (CHR 0x22)) (map json_string toks))"
    by (rule py_remove_join)
  ultimately have r: "py_remove (CHR 0x22) ?body = py_join '', '' (map json_escape toks)"
    by (simp del: map_map)
  from sq have "CHR 0x27 \<notin> set (py_join '', '' (map json_escape toks))"
    using set_py_join [of "'', ''" "map json_escape toks"] by auto
  then show ?thesis unfolding d clean_str_def s r by (simp add: py_remove_id)
qed

lemma decode_json_list:
  assumes "\<forall>t\<in>set toks. clean_token t"
  shows "decode_departments (clean_value (list_field toks)) = map json_escape toks"
proof -
  from assms have q: "\<forall>t\<in>set toks. CHR 0x22 \<notin> set t \<and> CHR 0x27 \<notin> set t"
    by (simp add: clean_token_def)
  have "\<forall>x\<in>set (map json_escape toks).
          x \<noteq> [] \<and> CHR '','' \<notin> set x \<and> \<not> is_space (hd x) \<and> \<not> is_space (last x)"
  proof
    fix x assume "x \<in> set (map json_escape toks)"
    then obtain t where t: "t \<in> set toks" "x = json_escape t" by auto
    with assms have c: "t \<noteq> []" "CHR '','' \<notin> set t" "\<not> is_space (hd t)" "\<not> is_space (last t)"
      by (simp_all add: clean_token_def)
    from c(2) have "CHR '','' \<notin> set (json_escape t)"
      by (rule json_escape_no_comma)
    with c t show "x \<noteq> [] \<and> CHR '','' \<notin> set x \<and> \<not> is_space (hd x) \<and> \<not> is_space (last x)"
      by (simp add: json_escape_not_Nil json_escape_hd_space json_escape_last_space)
  qed
  then have "split_tokens (py_join '', '' (map json_escape toks)) = map json_escape toks"
    by (rule split_tokens_join_comma_space)
  moreover have "clean_value (list_field toks) = CStr (json_dumps (list_field toks))"
    by (simp add: list_field_def)
  ultimately show ?thesis by (simp add: clean_str_json_list [OF q])
qed

lemma map_fixed: "map f xs = xs \<Longrightarrow> \<forall>x\<in>set xs. f x = x"
  by (induction xs) simp_all

lemma map_of_clean_record:
  "map_of (clean_record rcd) k = map_option clean_value (map_of rcd k)"
  by (induction rcd) (auto simp: clean_record_def)

lemma record_field_tokens:
  assumes "map_of rcd ''code_departement'' = Some v"
  shows "row_departement (clean_record rcd) ts =
           (case row_tokens (clean_value v) of
              Inl e \<Rightarrow> Inl e
            | Inr toks \<Rightarrow> Inr (scan_departments toks ts))"
  using assms by (simp add: row_departement_tokens map_of_clean_record)

text \<open>
  C2, as the source has it. A record carries its department field as a list of strings,
  as the bracketed and quoted string or as the bare comma-separated string; the normaliser
  turns the list into JSON text, and the matcher cleans and splits the text of all three.
  The guard lets each of the three through without raising, and all three give the scan
  the token sequence itself exactly when every token is clean (not empty, free of commas
  and quote characters, without white space at either end), is written by
  \<^verbatim>\<open>json.dumps\<close> as it is (no backslash, no control character), and the sequence
  neither begins nor ends with a bracket character.
\<close>

theorem decode_shape_independent:
  "(row_tokens (clean_value (list_field toks)) = Inr toks
    \<and> row_tokens (clean_value (quoted_field toks)) = Inr toks
    \<and> row_tokens (clean_value (bare_field toks)) = Inr toks)
   \<longleftrightarrow>
   ((\<forall>t\<in>set toks. clean_token t \<and> json_plain t)
    \<and> (toks \<noteq> [] \<longrightarrow> \<not> is_bracket (hd (hd toks)) \<and> \<not> is_bracket (last (last toks))))"
proof
  have l: "clean_value (list_field toks) = CStr (json_dumps (list_field toks))"
    by (simp add: list_field_def)
  assume a: "row_tokens (clean_value (list_field toks)) = Inr toks
    \<and> row_tokens (clean_value (quoted_field toks)) = Inr toks
    \<and> row_tokens (clean_value (bare_field toks)) = Inr toks"
  then have dl: "decode_departments (clean_value (list_field toks)) = toks"
    by (simp add: l row_tokens_CStr)
  from a have dq: "decode_departments (clean_value (quoted_field toks)) = toks"
    by (simp add: quoted_field_def row_tokens_CStr)
  from a have db: "decode_departments (clean_value (bare_field toks)) = toks"
    by (simp add: bare_field_def row_tokens_CStr)
  from dq have cl: "\<forall>t\<in>set toks. clean_token t"
    using string_forms_need_clean_tokens by blast
  from dl decode_json_list [OF cl] have "map json_escape toks = toks" by simp
  then have "\<forall>t\<in>set toks. json_escape t = t" by (rule map_fixed)
  then have pl: "\<forall>t\<in>set toks. json_plain t" by (simp add: json_escape_eq_iff)
  from db have
    "toks \<noteq> [] \<longrightarrow> \<not> is_bracket (hd (hd toks)) \<and> \<not> is_bracket (last (last toks))"
    using bare_field_needs_plain_ends by blast
  with cl pl show "(\<forall>t\<in>set toks. clean_token t \<and> json_plain t)
    \<and> (toks \<noteq> [] \<longrightarrow> \<not> is_bracket (hd (hd toks)) \<and> \<not> is_bracket (last (last toks)))"
    by blast
next
  assume b: "(\<forall>t\<in>set toks. clean_token t \<and> json_plain t)
    \<and> (toks \<noteq> [] \<longrightarrow> \<not> is_bracket (hd (hd toks)) \<and> \<not> is_bracket (last (last toks)))"
  then have cl: "\<forall>t\<in>set toks. clean_token t" by blast
  from b have "\<forall>t\<in>set toks. json_escape t = t" by (simp add: json_escape_plain)
  then have "map json_escape toks = toks" by (simp add: map_idI)
  with decode_json_list [OF cl] have
    dl: "decode_departments (clean_value (list_field toks)) = toks" by simp
  have l: "clean_value (list_field toks) = CStr (json_dumps (list_field toks))"
    by (simp add: list_field_def)
  from dl have 1: "row_tokens (clean_value (list_field toks)) = Inr toks"
    unfolding l by (simp add: row_tokens_CStr)
  from cl have 2: "row_tokens (clean_value (quoted_field toks)) = Inr toks"
    by (simp add: quoted_field_def row_tokens_CStr clean_str_quoted split_tokens_join
          del: append.simps)
  from cl b have 3: "row_tokens (clean_value (bare_field toks)) = Inr toks"
    by (simp add: bare_field_def row_tokens_CStr clean_str_bare split_tokens_join)
  from 1 2 3 show "row_tokens (clean_value (list_field toks)) = Inr toks
    \<and> row_tokens (clean_value (quoted_field toks)) = Inr toks
    \<and> row_tokens (clean_value (bare_field toks)) = Inr toks" by blast
qed

theorem decode_shape_independent_witness:
  "clean_token ''75'' \<and> clean_token ''92'' \<and> json_plain ''75'' \<and> json_plain ''92''
   \<and> \<not> is_bracket (hd (hd [''75'', ''92''])) \<and> \<not> is_bracket (last (last [''75'', ''92'']))
   \<and> row_tokens (clean_value (list_field [''75'', ''92''])) = Inr [''75'', ''92'']
   \<and> row_tokens (clean_value (quoted_field [''75'', ''92''])) = Inr [''75'', ''92'']
   \<and> row_tokens (clean_value (bare_field [''75'', ''92''])) = Inr [''75'', ''92'']"
proof -
  have c: "clean_token ''75''" "clean_token ''92''"
    by (simp_all add: clean_token_def is_space_def)
  have p: "json_plain ''75''" "json_plain ''92''"
    by (simp_all add: json_plain_def)
  have b: "\<not> is_bracket (hd (hd [''75'', ''92'']))" "\<not> is_bracket (last (last [''75'', ''92'']))"
    by (simp_all add: is_bracket_def)
  from c p have h1: "\<forall>t\<in>set [''75'', ''92'']. clean_token t \<and> json_plain t" by simp
  from b have h2: "[''75'', ''92''] \<noteq> [] \<longrightarrow> \<not> is_bracket (hd (hd [''75'', ''92'']))
              \<and> \<not> is_bracket (last (last [''75'', ''92'']))" by blast
  from decode_shape_independent [of "[''75'', ''92'']"] h1 h2 c p b show ?thesis by blast
qed

text \<open>
  C2 as the specification states it fails. For the token with a backslash the list, which
  reaches the matcher as JSON text, gives a token with the backslash doubled, and both
  strings give the token itself; for the token that begins with a bracket the list and
  the quoted string keep the bracket, and the bare string loses it.
\<close>

theorem decode_shape_counterexample:
  "row_tokens (clean_value (list_field [backslash_token])) =
     Inr [''7'' @ [CHR 0x5C, CHR 0x5C] @ ''5'']
   \<and> row_tokens (clean_value (quoted_field [backslash_token])) = Inr [backslash_token]
   \<and> row_tokens (clean_value (bare_field [backslash_token])) = Inr [backslash_token]
   \<and> row_tokens (clean_value (list_field [''[75''])) = Inr [''[75'']
   \<and> row_tokens (clean_value (quoted_field [''[75''])) = Inr [''[75'']
   \<and> row_tokens (clean_value (bare_field [''[75''])) = Inr [''75'']"
  by (simp add: row_tokens_def na_or_empty_def list_field_def quoted_field_def
        bare_field_def backslash_token_def json_string_def json_escape_char_def
        split_tokens_def clean_str_def py_strip_def py_remove_def is_bracket_def is_space_def)

text \<open>
  A cell that holds a list is never built by the normaliser. Handed to the matcher
  directly, it passes the guard only when it has exactly one element.
\<close>

lemma list_cell_guard:
  "length toks \<noteq> 1 \<Longrightarrow> \<exists>e. row_tokens (CList toks) = Inl e"
  by (simp add: row_tokens_def na_or_empty_def)

subsection \<open>The filter pass\<close>

lemma scan_first:
  "\<exists>d\<in>set ds. d \<in> set ts \<Longrightarrow>
   \<exists>pre d post. ds = pre @ d # post \<and> d \<in> set ts \<and> (\<forall>x\<in>set pre. x \<notin> set ts)
      \<and> scan_departments ds ts = Some d"
proof (induction ds)
  case Nil
  then show ?case by simp
next
  case (Cons a ds)
  show ?case
  proof (cases "a \<in> set ts")
    case True
    then have "a # ds = [] @ a # ds \<and> a \<in> set ts \<and> (\<forall>x\<in>set []. x \<notin> set ts)
               \<and> scan_departments (a # ds) ts = Some a" by simp
    then show ?thesis by blast
  next
    case False
    with Cons.prems have "\<exists>d\<in>set ds. d \<in> set ts" by auto
    from Cons.IH [OF this] obtain pre d post where
      "ds = pre @ d # post" "d \<in> set ts" "\<forall>x\<in>set pre. x \<notin> set ts"
      "scan_departments ds ts = Some d" by blast
    with False have "a # ds = (a # pre) @ d # post \<and> d \<in> set ts
        \<and> (\<forall>x\<in>set (a # pre). x \<notin> set ts) \<and> scan_departments (a # ds) ts = Some d"
      by simp
    then show ?thesis by blast
  qed
qed

lemma kept_indices_Cons:
  "kept_indices ts (r # rest) =
     (if trouve_of ts r \<noteq> None then [0] else []) @ map Suc (kept_indices ts rest)"
proof -
  have "[0..<length (r # rest)] = 0 # map Suc [0..<length rest]"
    by (simp add: upt_conv_Cons map_Suc_upt del: upt_Suc)
  then show ?thesis
    by (simp add: kept_indices_def filter_map comp_def del: upt_Suc)
qed

lemma filter_loop_char:
  "filter_loop ts index rs inds trs = Inr (inds', trs') \<Longrightarrow>
     trs' = trs @ map (trouve_of ts) rs
     \<and> inds' = inds @ map (\<lambda>k. index + k) (kept_indices ts rs)"
proof (induction rs arbitrary: index inds trs)
  case Nil
  then show ?case by (simp add: kept_indices_def)
next
  case (Cons r rest)
  show ?case
  proof (cases "row_departement r ts")
    case (Inl e)
    with Cons.prems show ?thesis by simp
  next
    case (Inr t)
    show ?thesis
    proof (cases t)
      case None
      with Inr Cons.prems have
        "filter_loop ts (index + 1) rest inds (trs @ [None]) = Inr (inds', trs')" by simp
      from Cons.IH [OF this] None Inr show ?thesis
        by (simp add: kept_indices_Cons trouve_of_def comp_def)
    next
      case (Some dep)
      with Inr Cons.prems have
        "filter_loop ts (index + 1) rest (inds @ [index]) (trs @ [Some dep]) = Inr (inds', trs')"
        by simp
      from Cons.IH [OF this] Some Inr show ?thesis
        by (simp add: kept_indices_Cons trouve_of_def comp_def)
    qed
  qed
qed

lemma filter_loop_total:
  "\<forall>r\<in>set rs. \<exists>t. row_departement r ts = Inr t \<Longrightarrow>
   \<exists>res. filter_loop ts index rs inds trs = Inr res"
proof (induction rs arbitrary: index inds trs)
  case Nil
  then show ?case by simp
next
  case (Cons r rest)
  then obtain t where t: "row_departement r ts = Inr t" by auto
  from Cons have "\<And>index inds trs. \<exists>res. filter_loop ts index rest inds trs = Inr res" by simp
  with t show ?case by (cases t) simp_all
qed

lemma filter_loop_Inr_rows:
  "filter_loop ts index rs inds trs = Inr res \<Longrightarrow> \<forall>r\<in>set rs. \<exists>t. row_departement r ts = Inr t"
proof (induction rs arbitrary: index inds trs)
  case Nil
  then show ?case by simp
next
  case (Cons r rest)
  then show ?case
    by (cases "row_departement r ts") (auto split: option.splits)
qed

lemma kept_indices_bound: "i \<in> set (kept_indices ts rs) \<Longrightarrow> i < length rs"
  by (simp add: kept_indices_def)

lemma kept_indices_sorted: "sorted_wrt (<) (kept_indices ts rs)"
  by (simp add: kept_indices_def sorted_wrt_filter)

lemma kept_indices_length: "length (kept_indices ts rs) \<le> length rs"
  using length_filter_le [of _ "[0..<length rs]"] by (simp add: kept_indices_def)

lemma filter_by_departments_rows:
  assumes "filter_by_departments df ts = Inr dff"
  shows "rows dff = map (\<lambda>i. set_trouve (rows df ! i) (trouve_of ts (rows df ! i)))
                      (kept_indices ts (rows df))"
proof -
  from assms obtain inds trs where
    loop: "filter_loop ts 0 (rows df) [] [] = Inr (inds, trs)"
    by (auto simp: filter_by_departments_def split: sum.splits)
  from filter_loop_char [OF loop] have
    trs: "trs = map (trouve_of ts) (rows df)" and inds: "inds = kept_indices ts (rows df)"
    by simp_all
  have "map (\<lambda>i. set_trouve (rows df ! i) (trs ! i)) inds =
        map (\<lambda>i. set_trouve (rows df ! i) (trouve_of ts (rows df ! i))) inds"
    using kept_indices_bound [of _ ts "rows df"] by (simp add: trs inds)
  with assms loop show ?thesis
    by (auto simp: filter_by_departments_def inds split: if_splits)
qed

lemma scan_member: "scan_departments ds ts = Some d \<Longrightarrow> d \<in> set ts"
  by (induction ds) (auto split: if_splits)

lemma trouve_of_member: "trouve_of ts r = Some d \<Longrightarrow> d \<in> set ts"
  by (auto simp: trouve_of_def row_departement_def scan_member
      split: sum.splits option.splits bool.splits)

lemma clean_value_not_list: "clean_value v \<noteq> CList xs"
  by (cases v) simp_all

lemma clean_record_cell:
  "map_of (clean_record rcd) k = Some c \<Longrightarrow> \<exists>v. c = clean_value v"
  by (induction rcd) (auto simp: clean_record_def split: if_splits)

lemma na_or_empty_clean: "\<exists>b. na_or_empty (clean_value v) = Inr b"
  by (cases v) (auto simp: na_or_empty_def)

lemma row_departement_clean: "\<exists>t. row_departement (clean_record rcd) ts = Inr t"
proof (cases "map_of (clean_record rcd) ''code_departement''")
  case None
  then show ?thesis by (simp add: row_departement_def)
next
  case (Some c)
  then obtain v where "c = clean_value v" using clean_record_cell by blast
  with na_or_empty_clean [of v] obtain b where "na_or_empty c = Inr b" by auto
  with Some show ?thesis by (cases b) (simp_all add: row_departement_def)
qed

lemma filter_by_departments_clean:
  "\<exists>dff. filter_by_departments (create_excel_simple records td) ts = Inr dff"
proof -
  have "\<forall>r\<in>set (rows (create_excel_simple records td)). \<exists>t. row_departement r ts = Inr t"
    by (auto simp: create_excel_simple_def row_departement_clean)
  from filter_loop_total [OF this, of 0 "[]" "[]"] show ?thesis
    by (auto simp: filter_by_departments_def)
qed

lemma map_of_set_trouve:
  "map_of (set_trouve r t) ''code_departement_trouve'' = Some (trouve_cell t)"
  by (simp add: set_trouve_def update_conv')

lemma filtered_column_values:
  assumes "filter_by_departments df ts = Inr dff"
    and "v \<in> set (column_values dff ''code_departement_trouve'')"
  shows "\<exists>d\<in>set ts. v = Some (CStr d)"
proof -
  from assms(2) obtain i where i: "i \<in> set (kept_indices ts (rows df))"
    and v: "v = Some (trouve_cell (trouve_of ts (rows df ! i)))"
    by (auto simp: column_values_def filter_by_departments_rows [OF assms(1)] map_of_set_trouve)
  from i obtain d where d: "trouve_of ts (rows df ! i) = Some d"
    by (auto simp: kept_indices_def)
  with trouve_of_member [OF d] v show ?thesis by (simp add: trouve_cell_def)
qed

lemma value_counts_filtered:
  assumes "filter_by_departments df ts = Inr dff"
  shows "\<exists>dist. value_counts (column_values dff ''code_departement_trouve'') = Inr dist"
proof -
  have "\<not> list_ex is_list_cell (column_values dff ''code_departement_trouve'')"
    using filtered_column_values [OF assms] by (fastforce simp: list_ex_iff)
  then show ?thesis by (simp add: value_counts_def)
qed

lemma run_extraction_completed:
  assumes "fst (get_all_records_for_date remote td mx) = Inr all_records"
    and "all_records \<noteq> []"
  shows "\<exists>dff dist.
           filter_by_departments (create_excel_simple all_records td) deps = Inr dff
           \<and> value_counts (column_values dff ''code_departement_trouve'') = Inr dist
           \<and> status (run_extraction remote j0 td mx deps) = ''completed''
           \<and> total_records (run_extraction remote j0 td mx deps) = length all_records
           \<and> filtered_records (run_extraction remote j0 td mx deps) = length (rows dff)
           \<and> full_df (run_extraction remote j0 td mx deps) =
               Some (create_excel_simple all_records td)
           \<and> filtered_df (run_extraction remote j0 td mx deps) = Some dff
           \<and> department_distribution (run_extraction remote j0 td mx deps) = Some dist"
proof -
  obtain dff where f: "filter_by_departments (create_excel_simple all_records td) deps = Inr dff"
    using filter_by_departments_clean by blast
  obtain dist where
    d: "value_counts (column_values dff ''code_departement_trouve'') = Inr dist"
    using value_counts_filtered [OF f] by blast
  have e: "rows dff = [] \<Longrightarrow> dist = Map.empty"
    using d by (auto simp: value_counts_def column_values_def)
  show ?thesis
  proof (cases "rows dff = []")
    case True
    with assms f d e show ?thesis by (simp add: run_extraction_def Let_def)
  next
    case False
    then have "''code_departement_trouve'' \<in> set (columns dff)"
      using f by (auto simp: filter_by_departments_def split: sum.splits if_splits)
    with False assms f d show ?thesis by (simp add: run_extraction_def Let_def)
  qed
qed

lemma decode_empty_string: "decode_departments (CStr []) = []"
  by (simp add: split_tokens_def clean_str_def py_strip_def py_remove_def)

text \<open>
  C3. In a filter pass, a row whose department field is present and not \<^verbatim>\<open>None\<close>, and
  whose decoded token list contains a member of the target list, records the first such
  token: no token before it is a target, and the row enters the filtered dataset with
  that token in the column \<^verbatim>\<open>code_departement_trouve\<close>.
\<close>

theorem first_match_tie_break:
  assumes "filter_by_departments df ts = Inr dff"
    and "r \<in> set (rows df)"
    and "map_of r ''code_departement'' = Some code"
    and "code \<noteq> CNone"
    and "\<exists>d\<in>set (decode_departments code). d \<in> set ts"
  shows "\<exists>pre d post. decode_departments code = pre @ d # post
           \<and> d \<in> set ts \<and> (\<forall>x\<in>set pre. x \<notin> set ts)
           \<and> row_departement r ts = Inr (Some d)
           \<and> AList.update ''code_departement_trouve'' (CStr d) r \<in> set (rows dff)"
proof -
  from assms(1) obtain res where "filter_loop ts 0 (rows df) [] [] = Inr res"
    by (auto simp: filter_by_departments_def split: sum.splits)
  from filter_loop_Inr_rows [OF this] assms(2) obtain t where
    t: "row_departement r ts = Inr t" by blast
  with assms(3) obtain b where b: "na_or_empty code = Inr b"
    by (auto simp: row_departement_def split: sum.splits)
  have "\<not> b"
  proof (cases code)
    case CNone
    with assms(4) show ?thesis by simp
  next
    case (CStr s)
    with assms(5) have "s \<noteq> []" using decode_empty_string by auto
    with b CStr show ?thesis by (simp add: na_or_empty_def)
  next
    case (CInt i)
    with b show ?thesis by (simp add: na_or_empty_def)
  next
    case (CBool x)
    with b show ?thesis by (simp add: na_or_empty_def)
  next
    case (CList xs)
    with b show ?thesis by (auto simp: na_or_empty_def split: if_splits)
  qed
  with b assms(3) have rd:
    "row_departement r ts = Inr (scan_departments (decode_departments code) ts)"
    by (simp add: row_departement_def)
  from scan_first [OF assms(5)] obtain pre d post where
    dec: "decode_departments code = pre @ d # post" "d \<in> set ts" "\<forall>x\<in>set pre. x \<notin> set ts"
    and sc: "scan_departments (decode_departments code) ts = Some d" by blast
  from rd sc have tr: "trouve_of ts r = Some d" by (simp add: trouve_of_def)
  from assms(2) obtain i where i: "i < length (rows df)" "rows df ! i = r"
    by (auto simp: in_set_conv_nth)
  with tr have "i \<in> set (kept_indices ts (rows df))" by (simp add: kept_indices_def)
  then have "set_trouve (rows df ! i) (trouve_of ts (rows df ! i)) \<in> set (rows dff)"
    unfolding filter_by_departments_rows [OF assms(1)] by auto
  with i tr have "AList.update ''code_departement_trouve'' (CStr d) r \<in> set (rows dff)"
    by (simp add: set_trouve_def trouve_cell_def)
  with dec rd sc show ?thesis by auto
qed

theorem first_match_tie_break_witness:
  "filter_by_departments df_92_75 [''75'', ''92''] =
     Inr \<lparr> columns = [''dateparution'', ''code_departement'', ''code_departement_trouve''],
           rows = [AList.update ''code_departement_trouve'' (CStr ''92'')
                     (clean_record record_92_75)] \<rparr>
   \<and> clean_record record_92_75 \<in> set (rows df_92_75)
   \<and> map_of (clean_record record_92_75) ''code_departement'' =
       Some (clean_value (PList [PStr ''92'', PStr ''75'']))
   \<and> clean_value (PList [PStr ''92'', PStr ''75'']) \<noteq> CNone
   \<and> (\<exists>d\<in>set (decode_departments (clean_value (PList [PStr ''92'', PStr ''75'']))).
         d \<in> set [''75'', ''92''])
   \<and> (\<exists>pre d post.
         decode_departments (clean_value (PList [PStr ''92'', PStr ''75''])) = pre @ d # post
         \<and> d \<in> set [''75'', ''92''] \<and> (\<forall>x\<in>set pre. x \<notin> set [''75'', ''92''])
         \<and> row_departement (clean_record record_92_75) [''75'', ''92''] = Inr (Some d)
         \<and> AList.update ''code_departement_trouve'' (CStr d) (clean_record record_92_75)
             \<in> set (rows \<lparr> columns = [''dateparution'', ''code_departement'',
                                      ''code_departement_trouve''],
                           rows = [AList.update ''code_departement_trouve'' (CStr ''92'')
                                     (clean_record record_92_75)] \<rparr>))
   \<and> row_departement (clean_record record_92_75) [''75'', ''92''] = Inr (Some ''92'')"
proof -
  have h1: "filter_by_departments df_92_75 [''75'', ''92''] =
     Inr \<lparr> columns = [''dateparution'', ''code_departement'', ''code_departement_trouve''],
           rows = [AList.update ''code_departement_trouve'' (CStr ''92'')
                     (clean_record record_92_75)] \<rparr>"
    by (rule filter_92_75)
  have h2: "clean_record record_92_75 \<in> set (rows df_92_75)"
    by (simp add: df_92_75_def create_excel_simple_def)
  have h3: "map_of (clean_record record_92_75) ''code_departement'' =
       Some (clean_value (PList [PStr ''92'', PStr ''75'']))"
    by (simp add: clean_record_def record_92_75_def)
  have h4: "clean_value (PList [PStr ''92'', PStr ''75'']) \<noteq> CNone" by simp
  have h5: "\<exists>d\<in>set (decode_departments (clean_value (PList [PStr ''92'', PStr ''75'']))).
         d \<in> set [''75'', ''92'']"
    unfolding decode_92_75 by simp
  have h6: "row_departement (clean_record record_92_75) [''75'', ''92''] = Inr (Some ''92'')"
    by (simp add: clean_record_def record_92_75_def row_departement_def na_or_empty_def
          json_string_def json_escape_char_def split_tokens_def clean_str_def py_strip_def
          py_remove_def is_bracket_def is_space_def)
  note c = first_match_tie_break [OF h1 h2 h3 h4 h5]
  from h1 h2 h3 h4 h5 c h6 show ?thesis by (intro conjI)
qed

subsection \<open>The completed job\<close>

lemma value_counts_props:
  assumes vc: "value_counts vals = Inr dist"
    and strs: "\<forall>v\<in>set vals. \<exists>d\<in>D. v = Some (CStr d)"
  shows "(\<forall>k\<in>dom dist. \<exists>d\<in>D. k = CStr d)"
    and "(\<forall>k\<in>dom dist. 1 \<le> the (dist k))"
    and "(\<Sum>k\<in>dom dist. the (dist k)) = length vals"
proof -
  from vc have dist: "dist = (\<lambda>k. if k \<noteq> CNone \<and> Some k \<in> set vals
                                 then Some (count_list vals (Some k)) else None)"
    by (auto simp: value_counts_def split: if_splits)
  have dom: "dom dist = {k. Some k \<in> set vals}"
    using strs by (auto simp: dist dom_def)
  show "\<forall>k\<in>dom dist. \<exists>d\<in>D. k = CStr d"
    using strs by (auto simp: dom)
  show "\<forall>k\<in>dom dist. 1 \<le> the (dist k)"
  proof
    fix k assume "k \<in> dom dist"
    then have "Some k \<in> set vals" by (simp add: dom)
    then have "count_list vals (Some k) \<noteq> 0" by (simp add: count_list_0_iff)
    then have "0 < count_list vals (Some k)" by simp
    moreover have "the (dist k) = count_list vals (Some k)"
      using \<open>k \<in> dom dist\<close> by (auto simp: dist split: if_splits)
    ultimately show "1 \<le> the (dist k)" by simp
  qed
  have img: "Some ` dom dist = set vals"
    using strs by (auto simp: dom image_iff)
  have "(\<Sum>k\<in>dom dist. the (dist k)) = (\<Sum>k\<in>dom dist. count_list vals (Some k))"
    by (rule sum.cong) (auto simp: dist split: if_splits)
  also have "\<dots> = sum (count_list vals) (Some ` dom dist)"
    by (simp add: sum.reindex comp_def)
  also have "\<dots> = length vals"
    unfolding img by (rule sum_count_set) simp_all
  finally show "(\<Sum>k\<in>dom dist. the (dist k)) = length vals" .
qed

text \<open>
  C8. When the fetch of a job returns at least one record, the job is completed, both
  datasets are stored, \<^verbatim>\<open>total_records\<close> and \<^verbatim>\<open>filtered_records\<close> are their row counts,
  the second is at most the first, and the rows of the filtered dataset are, in order, the
  rows of the full dataset at strictly increasing positions, each with the matched code set
  in the column \<^verbatim>\<open>code_departement_trouve\<close>.
\<close>

theorem filtered_rows_come_from_full_rows:
  assumes "jobs job_id = Some j0"
    and "fst (get_all_records_for_date remote td mx) = Inr all_records"
    and "all_records \<noteq> []"
  shows "\<exists>jobs' j df dff idx.
           process_extraction remote jobs job_id td mx deps = Inr jobs'
           \<and> jobs' job_id = Some j \<and> status j = ''completed''
           \<and> full_df j = Some df \<and> filtered_df j = Some dff
           \<and> total_records j = length (rows df)
           \<and> filtered_records j = length (rows dff)
           \<and> filtered_records j \<le> total_records j
           \<and> length idx = length (rows dff) \<and> sorted_wrt (<) idx
           \<and> (\<forall>i\<in>set idx. i < length (rows df))
           \<and> (\<forall>k<length idx. \<exists>d. rows dff ! k =
                 AList.update ''code_departement_trouve'' (CStr d) (rows df ! (idx ! k)))"
proof -
  let ?df = "create_excel_simple all_records td"
  let ?j = "run_extraction remote j0 td mx deps"
  let ?idx = "kept_indices deps (rows ?df)"
  from run_extraction_completed [OF assms(2,3), of deps j0] obtain dff where
    f: "filter_by_departments ?df deps = Inr dff"
    and st: "status ?j = ''completed''"
    and tot: "total_records ?j = length all_records"
    and fil: "filtered_records ?j = length (rows dff)"
    and full: "full_df ?j = Some ?df"
    and filt: "filtered_df ?j = Some dff" by blast
  have rows: "rows dff = map (\<lambda>i. set_trouve (rows ?df ! i) (trouve_of deps (rows ?df ! i))) ?idx"
    by (rule filter_by_departments_rows [OF f])
  have len: "length (rows ?df) = length all_records"
    by (simp add: create_excel_simple_def)
  have l1: "length ?idx = length (rows dff)" by (simp add: rows)
  have l2: "length (rows dff) \<le> length (rows ?df)"
    using kept_indices_length [of deps "rows ?df"] by (simp add: rows)
  have corr: "\<forall>k<length ?idx. \<exists>d. rows dff ! k =
                 AList.update ''code_departement_trouve'' (CStr d) (rows ?df ! (?idx ! k))"
  proof (intro allI impI)
    fix k assume k: "k < length ?idx"
    then have "?idx ! k \<in> set ?idx" by simp
    then obtain d where "trouve_of deps (rows ?df ! (?idx ! k)) = Some d"
      by (auto simp: kept_indices_def)
    with k have "rows dff ! k =
        AList.update ''code_departement_trouve'' (CStr d) (rows ?df ! (?idx ! k))"
      by (simp add: rows set_trouve_def trouve_cell_def)
    then show "\<exists>d. rows dff ! k =
        AList.update ''code_departement_trouve'' (CStr d) (rows ?df ! (?idx ! k))" ..
  qed
  have "process_extraction remote jobs job_id td mx deps = Inr (jobs(job_id \<mapsto> ?j))"
    using assms(1) by (simp add: process_extraction_def)
  moreover have "(jobs(job_id \<mapsto> ?j)) job_id = Some ?j" by simp
  moreover have "total_records ?j = length (rows ?df)" by (simp add: tot len)
  moreover have "filtered_records ?j \<le> total_records ?j" using l2 by (simp add: tot fil len)
  moreover have "\<forall>i\<in>set ?idx. i < length (rows ?df)"
    using kept_indices_bound by blast
  ultimately show ?thesis
    using st full filt fil l1 kept_indices_sorted [of deps "rows ?df"] corr by blast
qed

theorem filtered_rows_come_from_full_rows_witness:
  "scenario_ledger ''job-1'' = Some started_job
   \<and> fst (get_all_records_for_date scenario_remote ''2024-05-01'' 5000) = Inr scenario_records
   \<and> scenario_records \<noteq> []
   \<and> (\<exists>jobs' j df dff idx.
           process_extraction scenario_remote scenario_ledger ''job-1'' ''2024-05-01'' 5000
             [''75''] = Inr jobs'
           \<and> jobs' ''job-1'' = Some j \<and> status j = ''completed''
           \<and> full_df j = Some df \<and> filtered_df j = Some dff
           \<and> total_records j = length (rows df)
           \<and> filtered_records j = length (rows dff)
           \<and> filtered_records j \<le> total_records j
           \<and> length idx = length (rows dff) \<and> sorted_wrt (<) idx
           \<and> (\<forall>i\<in>set idx. i < length (rows df))
           \<and> (\<forall>k<length idx. \<exists>d. rows dff ! k =
                 AList.update ''code_departement_trouve'' (CStr d) (rows df ! (idx ! k))))"
proof -
  have h1: "scenario_ledger ''job-1'' = Some started_job" by (rule scenario_ledger_entry)
  have h2: "fst (get_all_records_for_date scenario_remote ''2024-05-01'' 5000) =
              Inr scenario_records" by (simp add: scenario_fetch)
  have h3: "scenario_records \<noteq> []" by (rule scenario_records_length)
  note c = filtered_rows_come_from_full_rows [of scenario_ledger "''job-1''" started_job
      scenario_remote "''2024-05-01''" 5000 scenario_records "[''75'']", OF h1 h2 h3]
  from h1 h2 h3 c show ?thesis by (intro conjI)
qed

text \<open>
  C10. For such a job every key of \<^verbatim>\<open>department_distribution\<close> is a requested department,
  every value is at least one, the values add up to \<^verbatim>\<open>filtered_records\<close>, and the
  mapping is empty when the filtered dataset has no row.
\<close>

theorem department_distribution_counts:
  assumes "jobs job_id = Some j0"
    and "fst (get_all_records_for_date remote td mx) = Inr all_records"
    and "all_records \<noteq> []"
  shows "\<exists>jobs' j dist.
           process_extraction remote jobs job_id td mx deps = Inr jobs'
           \<and> jobs' job_id = Some j \<and> status j = ''completed''
           \<and> department_distribution j = Some dist
           \<and> (\<forall>k\<in>dom dist. \<exists>d\<in>set deps. k = CStr d)
           \<and> (\<forall>k\<in>dom dist. 1 \<le> the (dist k))
           \<and> (\<Sum>k\<in>dom dist. the (dist k)) = filtered_records j
           \<and> (filtered_records j = 0 \<longrightarrow> dist = Map.empty)"
proof -
  let ?df = "create_excel_simple all_records td"
  let ?j = "run_extraction remote j0 td mx deps"
  from run_extraction_completed [OF assms(2,3), of deps j0] obtain dff dist where
    f: "filter_by_departments ?df deps = Inr dff"
    and vc: "value_counts (column_values dff ''code_departement_trouve'') = Inr dist"
    and st: "status ?j = ''completed''"
    and fil: "filtered_records ?j = length (rows dff)"
    and dd: "department_distribution ?j = Some dist" by blast
  have strs: "\<forall>v\<in>set (column_values dff ''code_departement_trouve'').
                \<exists>d\<in>set deps. v = Some (CStr d)"
    using filtered_column_values [OF f] by blast
  note p = value_counts_props [OF vc strs]
  have len: "length (column_values dff ''code_departement_trouve'') = length (rows dff)"
    by (simp add: column_values_def)
  have emp: "filtered_records ?j = 0 \<longrightarrow> dist = Map.empty"
    using vc by (auto simp: fil value_counts_def column_values_def)
  have pe: "process_extraction remote jobs job_id td mx deps = Inr (jobs(job_id \<mapsto> ?j))"
    using assms(1) by (simp add: process_extraction_def)
  have sm: "(\<Sum>k\<in>dom dist. the (dist k)) = filtered_records ?j"
    using p(3) by (simp add: len fil)
  show ?thesis
  proof (intro exI conjI)
    show "process_extraction remote jobs job_id td mx deps = Inr (jobs(job_id \<mapsto> ?j))"
      by (rule pe)
    show "(jobs(job_id \<mapsto> ?j)) job_id = Some ?j" by simp
    show "status ?j = ''completed''" by (rule st)
    show "department_distribution ?j = Some dist" by (rule dd)
    show "\<forall>k\<in>dom dist. \<exists>d\<in>set deps. k = CStr d" by (rule p(1))
    show "\<forall>k\<in>dom dist. 1 \<le> the (dist k)" by (rule p(2))
    show "(\<Sum>k\<in>dom dist. the (dist k)) = filtered_records ?j" by (rule sm)
    show "filtered_records ?j = 0 \<longrightarrow> dist = Map.empty" by (rule emp)
  qed
qed

theorem department_distribution_counts_witness:
  "scenario_ledger ''job-1'' = Some started_job
   \<and> fst (get_all_records_for_date scenario_remote ''2024-05-01'' 5000) = Inr scenario_records
   \<and> scenario_records \<noteq> []
   \<and> (\<exists>jobs' j dist.
           process_extraction scenario_remote scenario_ledger ''job-1'' ''2024-05-01'' 5000
             [''75''] = Inr jobs'
           \<and> jobs' ''job-1'' = Some j \<and> status j = ''completed''
           \<and> department_distribution j = Some dist
           \<and> (\<forall>k\<in>dom dist. \<exists>d\<in>set [''75'']. k = CStr d)
           \<and> (\<forall>k\<in>dom dist. 1 \<le> the (dist k))
           \<and> (\<Sum>k\<in>dom dist. the (dist k)) = filtered_records j
           \<and> (filtered_records j = 0 \<longrightarrow> dist = Map.empty))"
proof -
  have h1: "scenario_ledger ''job-1'' = Some started_job" by (rule scenario_ledger_entry)
  have h2: "fst (get_all_records_for_date scenario_remote ''2024-05-01'' 5000) =
              Inr scenario_records" by (simp add: scenario_fetch)
  have h3: "scenario_records \<noteq> []" by (rule scenario_records_length)
  note c = department_distribution_counts [of scenario_ledger "''job-1''" started_job
      scenario_remote "''2024-05-01''" 5000 scenario_records "[''75'']", OF h1 h2 h3]
  from h1 h2 h3 c show ?thesis by (intro conjI)
qed

subsection \<open>The course of the fetch loop\<close>

lemma fetch_trace_Nil: "fetch_trace remote td mx acc offset (Inr acc) []"
  by (simp add: fetch_trace_def)

lemma fetch_trace_stop:
  assumes "int (length acc) < mx"
    and "res = Inr (acc @ page_matches remote td offset)
         \<or> (\<exists>e records. res = Inl e \<and> remote offset = Results records \<and> records \<noteq> []
               \<and> date_before (last records) td = Inl e)"
  shows "fetch_trace remote td mx acc offset res [offset]"
  using assms by (auto simp: fetch_trace_def)

lemma fetch_trace_step:
  assumes guard: "int (length acc) < mx"
    and cont: "page_continues remote td offset"
    and rest: "fetch_trace remote td mx (acc @ page_matches remote td offset) (offset + 100) res ext"
  shows "fetch_trace remote td mx acc offset res (offset # ext)"
proof -
  from rest have ge: "\<forall>off\<in>set ext. offset + 100 \<le> off" by (simp add: fetch_trace_def)
  then have lt: "\<forall>off\<in>set ext. offset < off" by auto
  have 1: "\<forall>off\<in>set (offset # ext). offset \<le> off" using lt by auto
  have 2: "sorted_wrt (<) (offset # ext)" using lt rest by (simp add: fetch_trace_def)
  have 3: "\<forall>off\<in>set (butlast (offset # ext)). page_continues remote td off"
    using cont rest by (simp add: fetch_trace_def)
  have 4: "\<forall>r. res = Inr r \<longrightarrow>
             r = acc @ concat (map (page_matches remote td) (offset # ext))"
    using rest by (simp add: fetch_trace_def)
  have 5: "\<forall>e. res = Inl e \<longrightarrow> offset # ext \<noteq> [] \<and>
            (\<exists>records. remote (last (offset # ext)) = Results records \<and> records \<noteq> []
               \<and> date_before (last records) td = Inl e)"
    using rest by (auto simp: fetch_trace_def)
  have 6: "\<forall>i<length (offset # ext).
            int (length (acc @ concat (map (page_matches remote td) (take i (offset # ext))))) < mx"
  proof (intro allI impI)
    fix i assume i: "i < length (offset # ext)"
    show "int (length (acc @ concat (map (page_matches remote td) (take i (offset # ext))))) < mx"
    proof (cases i)
      case 0
      with guard show ?thesis by simp
    next
      case (Suc i')
      with i have "i' < length ext" by simp
      with rest have "int (length ((acc @ page_matches remote td offset) @
                       concat (map (page_matches remote td) (take i' ext)))) < mx"
        by (simp add: fetch_trace_def)
      with Suc show ?thesis by simp
    qed
  qed
  from 1 2 3 4 5 6 show ?thesis unfolding fetch_trace_def by blast
qed

lemma fetch_loop_trace:
  "fetch_loop remote td mx acc offset log = (res, log') \<Longrightarrow>
   \<exists>ext. log' = log @ ext \<and> fetch_trace remote td mx acc offset res ext"
proof (induction remote td mx acc offset log arbitrary: res log' rule: fetch_loop.induct)
  case (1 remote td mx acc offset log)
  note run = "1.prems"
  show ?case
  proof (cases "int (length acc) < mx")
    case False
    with run have "res = Inr acc" "log' = log" by (simp_all add: fetch_loop.simps)
    then show ?thesis using fetch_trace_Nil by auto
  next
    case guard: True
    show ?thesis
    proof (cases "page_continues remote td offset")
      case False
      with guard run have l: "log' = log @ [offset]"
        by (auto simp: fetch_loop.simps [of remote td mx acc offset log] page_continues_def
            split: response.splits sum.splits if_splits bool.splits)
      from False guard run have
        "res = Inr (acc @ page_matches remote td offset)
         \<or> (\<exists>e records. res = Inl e \<and> remote offset = Results records \<and> records \<noteq> []
               \<and> date_before (last records) td = Inl e)"
        by (auto simp: fetch_loop.simps [of remote td mx acc offset log] page_continues_def
            page_matches_def target_records_def
            split: response.splits sum.splits if_splits bool.splits)
      from fetch_trace_stop [OF guard this] l show ?thesis by blast
    next
      case True
      then obtain records where p: "remote offset = Results records" "records \<noteq> []"
        "date_before (last records) td = Inr False" "\<not> 10000 < offset + 100"
        by (auto simp: page_continues_def split: response.splits)
      with guard run have
        "fetch_loop remote td mx (acc @ target_records td records) (offset + 100)
           (log @ [offset]) = (res, log')"
        by (simp add: fetch_loop.simps [of remote td mx acc offset log])
      from "1.IH" [OF guard p(1) p(2) p(3) _ p(4) this] obtain ext where
        e: "log' = (log @ [offset]) @ ext"
        and t: "fetch_trace remote td mx (acc @ target_records td records) (offset + 100) res ext"
        by auto
      from p(1) have "page_matches remote td offset = target_records td records"
        by (simp add: page_matches_def)
      with t have "fetch_trace remote td mx (acc @ page_matches remote td offset)
                     (offset + 100) res ext" by simp
      from fetch_trace_step [OF guard True this] e show ?thesis by simp
    qed
  qed
qed

lemma get_all_records_trace:
  "get_all_records_for_date remote td mx = (res, log) \<Longrightarrow> fetch_trace remote td mx [] 0 res log"
  using fetch_loop_trace [of remote td mx "[]" 0 "[]" res log]
  by (simp add: get_all_records_for_date_def)

lemma sorted_le_last: "sorted_wrt (<) xs \<Longrightarrow> (x::nat) \<in> set xs \<Longrightarrow> x \<le> last xs"
  by (induction xs) (auto simp: less_imp_le)

lemma last_if_not_butlast: "x \<in> set xs \<Longrightarrow> x \<notin> set (butlast xs) \<Longrightarrow> last xs = x"
  by (induction xs) (auto split: if_splits)

lemma stopping_page_is_last:
  assumes "fetch_trace remote td mx acc offset res ext"
    and "k \<in> set ext" and "\<not> page_continues remote td k"
  shows "last ext = k" and "\<forall>off\<in>set ext. off \<le> k"
proof -
  from assms(1,3) have "k \<notin> set (butlast ext)" by (auto simp: fetch_trace_def)
  with assms(2) show l: "last ext = k" by (rule last_if_not_butlast)
  from assms(1) have "sorted_wrt (<) ext" by (simp add: fetch_trace_def)
  with l show "\<forall>off\<in>set ext. off \<le> k" using sorted_le_last by blast
qed

text \<open>
  C4. When a requested page is not empty and its last record carries a publication date
  that is a string strictly below the target date, that page is the last request of the
  fetch, no later offset is requested, and the fetch returns the matching records of the
  pages requested, whatever \<^verbatim>\<open>max_records\<close> is.
\<close>

theorem date_cutoff_stops_fetch:
  assumes "get_all_records_for_date remote td mx = (res, log)"
    and "k \<in> set log"
    and "remote k = Results records" and "records \<noteq> []"
    and "map_of (last records) ''dateparution'' = Some (PStr d)" and "str_lt d td"
  shows "last log = k \<and> (\<forall>off\<in>set log. off \<le> k)
         \<and> res = Inr (concat (map (page_matches remote td) log))"
proof -
  note t = get_all_records_trace [OF assms(1)]
  from assms(5,6) have db: "date_before (last records) td = Inr True"
    by (simp add: date_before_def)
  with assms(3) have nc: "\<not> page_continues remote td k" by (simp add: page_continues_def)
  note l = stopping_page_is_last [OF t assms(2) nc]
  have "\<exists>r. res = Inr r"
  proof (cases res)
    case (Inl e)
    with t l(1) assms(3) db show ?thesis by (auto simp: fetch_trace_def)
  next
    case (Inr r)
    then show ?thesis by blast
  qed
  with t have "res = Inr (concat (map (page_matches remote td) log))"
    by (auto simp: fetch_trace_def)
  with l show ?thesis by blast
qed

theorem date_cutoff_stops_fetch_witness:
  "get_all_records_for_date cutoff_remote ''2024-05-01'' 5000 =
     (Inr [notice ''24-2'' ''2024-05-01'', notice ''24-3'' ''2024-05-01''], [0, 100])
   \<and> (100::nat) \<in> set [0, 100]
   \<and> cutoff_remote 100 =
       Results [notice ''24-3'' ''2024-05-01'', notice ''24-4'' ''2024-04-30'']
   \<and> [notice ''24-3'' ''2024-05-01'', notice ''24-4'' ''2024-04-30''] \<noteq> []
   \<and> map_of (last [notice ''24-3'' ''2024-05-01'', notice ''24-4'' ''2024-04-30''])
        ''dateparution'' = Some (PStr ''2024-04-30'')
   \<and> str_lt ''2024-04-30'' ''2024-05-01''
   \<and> (last [0, 100] = (100::nat) \<and> list_all (\<lambda>off. off \<le> (100::nat)) [0, 100]
       \<and> Inr [notice ''24-2'' ''2024-05-01'', notice ''24-3'' ''2024-05-01''] =
           (Inr (concat (map (page_matches cutoff_remote ''2024-05-01'') [0, 100]))
              :: py_error + record_t list))
   \<and> int (length [notice ''24-2'' ''2024-05-01'', notice ''24-3'' ''2024-05-01'']) < 5000"
proof -
  have h1: "get_all_records_for_date cutoff_remote ''2024-05-01'' 5000 =
     (Inr [notice ''24-2'' ''2024-05-01'', notice ''24-3'' ''2024-05-01''], [0, 100])"
    by (rule cutoff_fetch)
  have h2: "(100::nat) \<in> set [0, 100]" by simp
  have h3: "cutoff_remote 100 =
       Results [notice ''24-3'' ''2024-05-01'', notice ''24-4'' ''2024-04-30'']"
    by (simp add: cutoff_remote_def)
  have h4: "[notice ''24-3'' ''2024-05-01'', notice ''24-4'' ''2024-04-30''] \<noteq> []" by simp
  have h5: "map_of (last [notice ''24-3'' ''2024-05-01'', notice ''24-4'' ''2024-04-30''])
        ''dateparution'' = Some (PStr ''2024-04-30'')"
    by (simp add: notice_def)
  have h6: "str_lt ''2024-04-30'' ''2024-05-01''" by simp
  have h7: "int (length [notice ''24-2'' ''2024-05-01'', notice ''24-3'' ''2024-05-01'']) < 5000"
    by simp
  from date_cutoff_stops_fetch [OF h1 h2 h3 h4 h5 h6] h1 h2 h3 h4 h5 h6 h7
  show ?thesis by (simp only: list_all_iff) blast
qed

text \<open>
  C5. Some fetch returns more records than \<^verbatim>\<open>max_records\<close>. Every fetch that returns
  delivers the matching records of each requested page in full, in the order of the
  requests, and each request is made while the records accumulated before it are fewer than
  \<^verbatim>\<open>max_records\<close>.
\<close>

theorem max_records_is_not_a_cap:
  "(\<exists>remote' td' mx' r' log'.
       get_all_records_for_date remote' td' mx' = (Inr r', log') \<and> mx' < int (length r'))
   \<and> (get_all_records_for_date remote td mx = (Inr r, log) \<longrightarrow>
         r = concat (map (page_matches remote td) log)
         \<and> (\<forall>i<length log.
               int (length (concat (map (page_matches remote td) (take i log)))) < mx))"
proof (intro conjI impI)
  have "get_all_records_for_date scenario_remote ''2024-05-01'' 1 = (Inr scenario_records, [0])
        \<and> 1 < int (length scenario_records)"
    by (simp add: scenario_fetch_one scenario_records_length)
  then show "\<exists>remote' td' mx' r' log'.
       get_all_records_for_date remote' td' mx' = (Inr r', log') \<and> mx' < int (length r')"
    by blast
next
  assume "get_all_records_for_date remote td mx = (Inr r, log)"
  from get_all_records_trace [OF this]
  show "r = concat (map (page_matches remote td) log)"
    and "\<forall>i<length log.
               int (length (concat (map (page_matches remote td) (take i log)))) < mx"
    by (simp_all add: fetch_trace_def)
qed

theorem max_records_is_not_a_cap_witness:
  "get_all_records_for_date scenario_remote ''2024-05-01'' 1 = (Inr scenario_records, [0])
   \<and> 1 < int (length scenario_records)
   \<and> scenario_records = concat (map (page_matches scenario_remote ''2024-05-01'') [0])
   \<and> int (length (concat (map (page_matches scenario_remote ''2024-05-01'')
                            (take 0 [0])))) < 1"
  using max_records_is_not_a_cap [of scenario_remote "''2024-05-01''" 1 scenario_records "[0]"]
  by (simp add: scenario_fetch_one scenario_records_length)

lemma run_extraction_zero:
  "fst (get_all_records_for_date remote td mx) = Inr [] \<Longrightarrow>
   status (run_extraction remote j0 td mx deps) = ''completed''"
  by (simp add: run_extraction_def)

lemma run_extraction_status_completed:
  assumes "fst (get_all_records_for_date remote td mx) = Inr r"
  shows "status (run_extraction remote j0 td mx deps) = ''completed''"
proof (cases "r = []")
  case True
  with assms show ?thesis by (simp add: run_extraction_zero)
next
  case False
  from run_extraction_completed [OF assms False, of deps j0] show ?thesis by blast
qed

text \<open>
  C6. When a page request fails with a \<^verbatim>\<open>RequestException\<close>, that request is the last
  one, the fetch returns (and does not raise) exactly the matching records of the pages
  requested before it, and the job of such a fetch ends with status \<open>completed\<close>.
\<close>

theorem request_failure_keeps_partial_result:
  assumes "get_all_records_for_date remote td mx = (res, log)"
    and "k \<in> set log"
    and "remote k = RequestException"
  shows "last log = k
         \<and> res = Inr (concat (map (page_matches remote td) (butlast log)))
         \<and> (\<forall>jobs job_id j0 deps. jobs job_id = Some j0 \<longrightarrow>
               (\<exists>jobs' j. process_extraction remote jobs job_id td mx deps = Inr jobs'
                  \<and> jobs' job_id = Some j \<and> status j = ''completed''))"
proof -
  note t = get_all_records_trace [OF assms(1)]
  from assms(3) have nc: "\<not> page_continues remote td k" by (simp add: page_continues_def)
  note l = stopping_page_is_last [OF t assms(2) nc]
  from assms(2) have ne: "log \<noteq> []" by auto
  have "\<exists>r. res = Inr r"
  proof (cases res)
    case (Inl e)
    with t l(1) assms(3) show ?thesis by (auto simp: fetch_trace_def)
  next
    case (Inr r)
    then show ?thesis by blast
  qed
  then obtain r where r: "res = Inr r" by blast
  with t have "r = concat (map (page_matches remote td) log)"
    by (auto simp: fetch_trace_def)
  also have "log = butlast log @ [k]" using ne l(1) by (metis append_butlast_last_id)
  also have "concat (map (page_matches remote td) (butlast log @ [k])) =
             concat (map (page_matches remote td) (butlast log))"
    using assms(3) by (simp add: page_matches_def)
  finally have res: "res = Inr (concat (map (page_matches remote td) (butlast log)))"
    using r by simp
  have job: "\<forall>jobs job_id j0 deps. jobs job_id = Some j0 \<longrightarrow>
               (\<exists>jobs' j. process_extraction remote jobs job_id td mx deps = Inr jobs'
                  \<and> jobs' job_id = Some j \<and> status j = ''completed'')"
  proof (intro allI impI)
    fix jobs :: jobs and job_id j0 deps
    assume j: "jobs job_id = Some j0"
    from assms(1) r have "fst (get_all_records_for_date remote td mx) = Inr r" by simp
    then have "status (run_extraction remote j0 td mx deps) = ''completed''"
      by (rule run_extraction_status_completed)
    with j show "\<exists>jobs' j. process_extraction remote jobs job_id td mx deps = Inr jobs'
                  \<and> jobs' job_id = Some j \<and> status j = ''completed''"
      by (simp add: process_extraction_def)
  qed
  from l(1) res job show ?thesis by blast
qed

theorem request_failure_keeps_partial_result_witness:
  "get_all_records_for_date failing_remote ''2024-05-01'' 5000 =
     (Inr [notice ''24-1'' ''2024-05-01'', notice ''24-2'' ''2024-05-01''], [0, 100])
   \<and> (100::nat) \<in> set [0, 100]
   \<and> failing_remote 100 = RequestException
   \<and> last [0, 100] = (100::nat)
   \<and> Inr [notice ''24-1'' ''2024-05-01'', notice ''24-2'' ''2024-05-01''] =
       (Inr (concat (map (page_matches failing_remote ''2024-05-01'') (butlast [0, 100])))
          :: py_error + record_t list)
   \<and> (\<exists>jobs' j. process_extraction failing_remote scenario_ledger ''job-1'' ''2024-05-01''
                    5000 [''75''] = Inr jobs'
          \<and> jobs' ''job-1'' = Some j \<and> status j = ''completed'')"
proof -
  have h1: "get_all_records_for_date failing_remote ''2024-05-01'' 5000 =
     (Inr [notice ''24-1'' ''2024-05-01'', notice ''24-2'' ''2024-05-01''], [0, 100])"
    by (rule failing_fetch)
  have h2: "(100::nat) \<in> set [0, 100]" by simp
  have h3: "failing_remote 100 = RequestException" by (simp add: failing_remote_def)
  note c = request_failure_keeps_partial_result [OF h1 h2 h3]
  from c have c1: "last [0, 100] = (100::nat)" by blast
  from c have c2: "Inr [notice ''24-1'' ''2024-05-01'', notice ''24-2'' ''2024-05-01''] =
       (Inr (concat (map (page_matches failing_remote ''2024-05-01'') (butlast [0, 100])))
          :: py_error + record_t list)" by blast
  from c scenario_ledger_entry have c3:
    "\<exists>jobs' j. process_extraction failing_remote scenario_ledger ''job-1'' ''2024-05-01''
                    5000 [''75''] = Inr jobs'
          \<and> jobs' ''job-1'' = Some j \<and> status j = ''completed''" by blast
  from h1 h2 h3 c1 c2 c3 show ?thesis by (intro conjI)
qed

text \<open>
  C7. For a job of the ledger \<^verbatim>\<open>process_extraction\<close> always returns, and writes only that
  job's entry. A fault of the pipeline, which can only be the \<^verbatim>\<open>TypeError\<close> of the fetch,
  leaves the entry with status \<open>error\<close> and the fault's text in the message, which the
  status query then reports; without a fault the status is \<open>completed\<close>.
\<close>

theorem pipeline_fault_sets_error_status:
  assumes "jobs job_id = Some j0"
  shows "\<exists>jobs' j. process_extraction remote jobs job_id td mx deps = Inr jobs'
           \<and> jobs' job_id = Some j
           \<and> (\<forall>other. other \<noteq> job_id \<longrightarrow> jobs' other = jobs other)
           \<and> (\<forall>e. fst (get_all_records_for_date remote td mx) = Inl e \<longrightarrow>
                 status j = ''error''
                 \<and> message j = ''Error during processing: '' @ str_error e
                 \<and> (\<exists>st. get_job_status jobs' job_id = Inr st \<and> js_status st = ''error''
                       \<and> js_message st = ''Error during processing: '' @ str_error e))
           \<and> (\<forall>r. fst (get_all_records_for_date remote td mx) = Inr r \<longrightarrow>
                 status j = ''completed'')"
proof -
  let ?j = "run_extraction remote j0 td mx deps"
  let ?jobs = "jobs(job_id \<mapsto> ?j)"
  have pe: "process_extraction remote jobs job_id td mx deps = Inr ?jobs"
    using assms by (simp add: process_extraction_def)
  have err: "\<forall>e. fst (get_all_records_for_date remote td mx) = Inl e \<longrightarrow>
                 status ?j = ''error''
                 \<and> message ?j = ''Error during processing: '' @ str_error e
                 \<and> (\<exists>st. get_job_status ?jobs job_id = Inr st \<and> js_status st = ''error''
                       \<and> js_message st = ''Error during processing: '' @ str_error e)"
    by (simp add: run_extraction_def on_error_def get_job_status_def)
  have ok: "\<forall>r. fst (get_all_records_for_date remote td mx) = Inr r \<longrightarrow>
                 status ?j = ''completed''"
    using run_extraction_status_completed by blast
  show ?thesis
  proof (intro exI conjI)
    show "process_extraction remote jobs job_id td mx deps = Inr ?jobs" by (rule pe)
    show "?jobs job_id = Some ?j" by simp
    show "\<forall>other. other \<noteq> job_id \<longrightarrow> ?jobs other = jobs other" by simp
    show "\<forall>e. fst (get_all_records_for_date remote td mx) = Inl e \<longrightarrow>
                 status ?j = ''error''
                 \<and> message ?j = ''Error during processing: '' @ str_error e
                 \<and> (\<exists>st. get_job_status ?jobs job_id = Inr st \<and> js_status st = ''error''
                       \<and> js_message st = ''Error during processing: '' @ str_error e)"
      by (rule err)
    show "\<forall>r. fst (get_all_records_for_date remote td mx) = Inr r \<longrightarrow>
                 status ?j = ''completed''" by (rule ok)
  qed
qed

theorem pipeline_fault_sets_error_status_witness:
  "scenario_ledger ''job-1'' = Some started_job
   \<and> (\<exists>jobs' j. process_extraction faulty_remote scenario_ledger ''job-1'' ''2024-05-01''
                    5000 [''75''] = Inr jobs'
         \<and> jobs' ''job-1'' = Some j
         \<and> status j = ''error''
         \<and> message j = ''Error during processing: '' @ squote @ ''<'' @ squote @
               '' not supported between instances of '' @ squote @ ''NoneType'' @ squote @
               '' and '' @ squote @ ''str'' @ squote
         \<and> (\<exists>st. get_job_status jobs' ''job-1'' = Inr st \<and> js_status st = ''error''))"
proof -
  have h: "scenario_ledger ''job-1'' = Some started_job" by (rule scenario_ledger_entry)
  have f: "fst (get_all_records_for_date faulty_remote ''2024-05-01'' 5000) =
     Inl (TypeError (squote @ ''<'' @ squote @ '' not supported between instances of '' @
           squote @ ''NoneType'' @ squote @ '' and '' @ squote @ ''str'' @ squote))"
    by (simp add: faulty_fetch)
  from pipeline_fault_sets_error_status [of scenario_ledger "''job-1''" started_job
      faulty_remote "''2024-05-01''" 5000 "[''75'']", OF h]
  obtain jobs' j where
    p: "process_extraction faulty_remote scenario_ledger ''job-1'' ''2024-05-01''
                    5000 [''75''] = Inr jobs'" "jobs' ''job-1'' = Some j"
    and e: "\<forall>e. fst (get_all_records_for_date faulty_remote ''2024-05-01'' 5000) = Inl e \<longrightarrow>
                 status j = ''error''
                 \<and> message j = ''Error during processing: '' @ str_error e
                 \<and> (\<exists>st. get_job_status jobs' ''job-1'' = Inr st \<and> js_status st = ''error''
                       \<and> js_message st = ''Error during processing: '' @ str_error e)"
    by blast
  from e f have "status j = ''error''
     \<and> message j = ''Error during processing: '' @ squote @ ''<'' @ squote @
               '' not supported between instances of '' @ squote @ ''NoneType'' @ squote @
               '' and '' @ squote @ ''str'' @ squote
     \<and> (\<exists>st. get_job_status jobs' ''job-1'' = Inr st \<and> js_status st = ''error'')"
    using faulty_message by auto
  with p h show ?thesis by blast
qed

end
